theory Spec2Isabelle
  imports Main
begin

section \<open>Rolling Auto-ARIMA forecast: the orchestration of arima\_predict.py\<close>

text \<open>
  The module has one function, \<open>get_trend_order\<close>, and one class,
  \<open>AutoARIMAForecast\<close>, with the methods \<open>get_best_arima_model\<close> (the fit) and
  \<open>predict\<close>. Everything statistical is done by pmdarima (\<open>ADFTest.should_diff\<close>,
  \<open>auto_arima\<close>, the fitted model's \<open>fit_predict\<close> and \<open>predict\<close>); these are
  parameters of the definitions below, and every call made to them is recorded, with its
  argument and its outcome, in a list of events that the definitions return beside their
  result. The pandas operations the module uses (\<open>copy\<close>, \<open>diff\<close>, \<open>dropna\<close>,
  \<open>iloc\<close> slices, \<open>append\<close>, \<open>loc\<close> assignment) are defined here on lists.
  The model follows the library versions the module was written for, in which
  \<open>np.float\<close> and \<open>Series.append\<close> exist.
\<close>

subsection \<open>Series, errors, events\<close>

text \<open>
  A pandas Series is the list of its (label, value) entries in positional order. A value
  is a float; \<open>None\<close> stands for NaN. The type of the floats is left open: only their
  subtraction is used, by \<open>diff\<close>.
\<close>

type_synonym ('t, 'v) series = "('t \<times> 'v option) list"

text \<open>
  \<open>AttributeError\<close> is what Python raises for a method call on \<open>None\<close>;
  \<open>LibraryError\<close> is any exception raised inside a pmdarima call.
\<close>

datatype error = AttributeError | LibraryError string

text \<open>The keyword arguments of the one call of \<open>auto_arima\<close>.\<close>

record ('t, 'v) auto_arima_args =
  arg_y :: "('t, 'v) series"
  arg_d :: nat
  arg_start_p :: int
  arg_start_q :: int
  arg_max_p :: int
  arg_max_q :: int
  arg_max_order :: int
  arg_trace :: bool

text \<open>
  An event is one library call with what it was given and what came back:
  \<open>DiffDropna s\<close> is \<open>s.diff().dropna()\<close>, \<open>ShouldDiff s r\<close> is
  \<open>adf_test.should_diff(s)[1]\<close> with its outcome \<open>r\<close>, \<open>AutoArima a ok\<close> the call
  of \<open>auto_arima\<close> and whether it returned a model, \<open>FitPredict s r\<close> is
  \<open>arima_model.fit_predict(s, n_periods=1)[0]\<close> and \<open>ModelPredict r\<close> is
  \<open>arima_model.predict(n_periods=1)[0]\<close>.
\<close>

datatype ('t, 'v) event =
    DiffDropna "('t, 'v) series"
  | ShouldDiff "('t, 'v) series" "error + bool"
  | AutoArima "('t, 'v) auto_arima_args" bool
  | FitPredict "('t, 'v) series" "error + 'v option"
  | ModelPredict "error + 'v option"

subsection \<open>The pandas operations\<close>

text \<open>
  \<open>Series.diff()\<close>: the first entry becomes NaN, every other entry its value minus the
  previous one, NaN when either is NaN. Labels are kept.
\<close>

fun sub_nan :: "'v::minus option \<Rightarrow> 'v option \<Rightarrow> 'v option" where
  "sub_nan (Some a) (Some b) = Some (a - b)"
| "sub_nan _ _ = None"

fun diff_from :: "'v::minus option \<Rightarrow> ('t, 'v) series \<Rightarrow> ('t, 'v) series" where
  "diff_from p [] = []"
| "diff_from p ((t, x) # xs) = (t, sub_nan x p) # diff_from x xs"

fun diff :: "('t, 'v::minus) series \<Rightarrow> ('t, 'v) series" where
  "diff [] = []"
| "diff ((t, x) # xs) = (t, None) # diff_from x xs"

text \<open>\<open>Series.dropna()\<close>: the entries whose value is not NaN.\<close>

definition dropna :: "('t, 'v) series \<Rightarrow> ('t, 'v) series" where
  "dropna s = filter (\<lambda>(t, x). x \<noteq> None) s"

text \<open>
  \<open>s.iloc[start:]\<close> for an integer \<open>start\<close>, as Python slices: a negative start
  counts from the end and is clamped at the beginning, a start beyond the end gives the
  empty series.
\<close>

definition iloc_from :: "int \<Rightarrow> 'a list \<Rightarrow> 'a list" where
  "iloc_from start s =
     (if start < 0 then drop (nat (int (length s) + start)) s else drop (nat start) s)"

text \<open>\<open>s.iloc[:stop]\<close> for a stop that is not negative.\<close>

definition iloc_upto :: "nat \<Rightarrow> 'a list \<Rightarrow> 'a list" where
  "iloc_upto stop s = take stop s"

text \<open>
  \<open>s.loc[label] = v\<close> for a label of the index: every entry carrying the label takes
  the value (one entry when labels are unique).
\<close>

definition loc_set :: "('t, 'v) series \<Rightarrow> 't \<Rightarrow> 'v option \<Rightarrow> ('t, 'v) series" where
  "loc_set s l v = map (\<lambda>(t, x). if t = l then (t, v) else (t, x)) s"

subsection \<open>get\_trend\_order\<close>

text \<open>
  The inner loop \<open>for _ in range(order): test_series = test_series.diff().dropna()\<close>,
  with the events it adds.
\<close>

fun difference :: "nat \<Rightarrow> ('t, 'v::minus) series \<Rightarrow> ('t, 'v) event list \<Rightarrow>
    ('t, 'v) series \<times> ('t, 'v) event list" where
  "difference 0 test_series ev = (test_series, ev)"
| "difference (Suc n) test_series ev =
     difference n (dropna (diff test_series)) (ev @ [DiffDropna test_series])"

text \<open>
  The \<open>while stationarity_flag is False\<close> loop, over the variables \<open>diff_order\<close>,
  \<open>order\<close> and \<open>stationarity_flag\<close>. The loop has no bound, so the function is
  partial: \<open>None\<close> is a run that never ends. An exception of the test ends the run.
\<close>

partial_function (option) trend_loop ::
  "(('t, 'v::minus) series \<Rightarrow> error + bool) \<Rightarrow> ('t, 'v) series \<Rightarrow> nat \<Rightarrow> nat \<Rightarrow> bool \<Rightarrow>
   ('t, 'v) event list \<Rightarrow> ((error + nat) \<times> ('t, 'v) event list) option" where
  "trend_loop should_diff y_train diff_order order stationarity_flag ev =
     (if stationarity_flag = False then
        (case difference order y_train ev of
           (test_series, ev1) \<Rightarrow>
             (case should_diff test_series of
                Inl e \<Rightarrow> Some (Inl e, ev1 @ [ShouldDiff test_series (Inl e)])
              | Inr b \<Rightarrow>
                  if b = False
                  then trend_loop should_diff y_train order (order + 1) True
                         (ev1 @ [ShouldDiff test_series (Inr b)])
                  else trend_loop should_diff y_train diff_order (order + 1) False
                         (ev1 @ [ShouldDiff test_series (Inr b)])))
      else Some (Inr diff_order, ev))"

definition get_trend_order ::
  "(('t, 'v::minus) series \<Rightarrow> error + bool) \<Rightarrow> ('t, 'v) series \<Rightarrow>
   ((error + nat) \<times> ('t, 'v) event list) option" where
  "get_trend_order should_diff y_train = trend_loop should_diff y_train 0 0 False []"

subsection \<open>Series objects and the forecaster\<close>

text \<open>
  The training series handed to the fit and the history the forecaster keeps are objects:
  the caller may change its series in place after the fit. They live in a store, addressed
  by references; \<open>next_ref\<close> is the first reference not yet in use. All other series
  (the out-of-sample series, the retrain contexts, the prediction) are only read, or
  are built and handed on, and are passed as values.
\<close>

type_synonym ref = nat

record ('t, 'v) store =
  objs :: "ref \<Rightarrow> ('t, 'v) series"
  next_ref :: ref

text \<open>\<open>s.copy()\<close>: a new object with the content of \<open>s\<close>.\<close>

definition copy_series :: "('t, 'v) store \<Rightarrow> ref \<Rightarrow> ref \<times> ('t, 'v) store" where
  "copy_series h r =
     (next_ref h, h\<lparr>objs := (objs h)(next_ref h := objs h r), next_ref := Suc (next_ref h)\<rparr>)"

text \<open>
  The fields of \<open>AutoARIMAForecast\<close>. \<open>'m\<close> is the state of a fitted pmdarima model;
  \<open>arima_model\<close> and \<open>y_train\<close> are \<open>None\<close> until the fit sets them.
\<close>

record 'm forecaster =
  start_p :: int
  start_q :: int
  max_p :: int
  max_q :: int
  arima_model :: "'m option"
  y_train :: "ref option"

definition init_forecaster :: "int \<Rightarrow> int \<Rightarrow> int \<Rightarrow> int \<Rightarrow> 'm forecaster" where
  "init_forecaster sp sq mp mq =
     \<lparr>start_p = sp, start_q = sq, max_p = mp, max_q = mq, arima_model = None, y_train = None\<rparr>"

subsection \<open>get\_best\_arima\_model\<close>

text \<open>
  The three statements of the method, in order: the trend order (an exception of the test
  leaves before anything is assigned), the copy assigned to \<open>self.y_train\<close>, the call of
  \<open>auto_arima\<close> on the caller's series (an exception there leaves with \<open>self.y_train\<close>
  already assigned). The result is the outcome, the forecaster, the store and the events.
\<close>

definition get_best_arima_model ::
  "(('t, 'v::minus) series \<Rightarrow> error + bool) \<Rightarrow> (('t, 'v) auto_arima_args \<Rightarrow> error + 'm) \<Rightarrow>
   'm forecaster \<Rightarrow> ('t, 'v) store \<Rightarrow> ref \<Rightarrow> bool \<Rightarrow>
   ((error + unit) \<times> 'm forecaster \<times> ('t, 'v) store \<times> ('t, 'v) event list) option" where
  "get_best_arima_model should_diff auto_arima self h y_train_ref verbose =
     (case get_trend_order should_diff (objs h y_train_ref) of
        None \<Rightarrow> None
      | Some (Inl e, ev) \<Rightarrow> Some (Inl e, self, h, ev)
      | Some (Inr trend_order, ev) \<Rightarrow>
          (case copy_series h y_train_ref of
             (c, h1) \<Rightarrow>
               (let self1 = self\<lparr>y_train := Some c\<rparr>;
                    args = \<lparr>arg_y = objs h1 y_train_ref, arg_d = trend_order,
                            arg_start_p = start_p self1, arg_start_q = start_q self1,
                            arg_max_p = max_p self1, arg_max_q = max_q self1,
                            arg_max_order = max_q self1 + max_p self1 + int trend_order,
                            arg_trace = verbose\<rparr>
                in case auto_arima args of
                     Inl e \<Rightarrow> Some (Inl e, self1, h1, ev @ [AutoArima args False])
                   | Inr m \<Rightarrow>
                       Some (Inr (), self1\<lparr>arima_model := Some m\<rparr>, h1,
                             ev @ [AutoArima args True]))))"

subsection \<open>predict\<close>

text \<open>
  The variables of the loop: the forecaster (its model is refitted in place), the series
  \<open>prediction\<close>, the counter \<open>retrain_idx\<close>, and the calls made so far, each with the
  loop index \<open>i\<close> of the step that made it.
\<close>

record ('t, 'v, 'm) predict_state =
  self :: "'m forecaster"
  prediction :: "('t, 'v) series"
  retrain_idx :: int
  calls :: "(nat \<times> ('t, 'v) event) list"

text \<open>
  One pass of the body of \<open>for i in range(1, y.shape[0])\<close>. \<open>fit_predict\<close> and
  \<open>model_predict\<close> are the two methods of the fitted model; each returns its outcome
  and the state the model is left in. A call on a field that is still \<open>None\<close> raises
  \<open>AttributeError\<close>; Python evaluates \<open>self.arima_model.fit_predict\<close> before its
  argument. The first component of the result is the exception that ended the pass, if any.
\<close>

definition predict_step ::
  "('m \<Rightarrow> ('t, 'v) series \<Rightarrow> (error + 'v option) \<times> 'm) \<Rightarrow> ('m \<Rightarrow> (error + 'v option) \<times> 'm) \<Rightarrow>
   ('t, 'v) store \<Rightarrow> ('t, 'v) series \<Rightarrow> int \<Rightarrow> int option \<Rightarrow> nat \<Rightarrow>
   ('t, 'v, 'm) predict_state \<Rightarrow> error option \<times> ('t, 'v, 'm) predict_state" where
  "predict_step fit_predict model_predict h y retrain_freq train_window i st =
     (if retrain_idx st \<ge> retrain_freq then
        (let st1 = st\<lparr>retrain_idx := 0\<rparr> in
         case arima_model (self st1) of
           None \<Rightarrow> (Some AttributeError, st1)
         | Some m \<Rightarrow>
             (case y_train (self st1) of
                None \<Rightarrow> (Some AttributeError, st1)
              | Some r \<Rightarrow>
                  (let context =
                         (case train_window of
                            None \<Rightarrow> objs h r @ iloc_upto (i - 1) y
                          | Some w \<Rightarrow> iloc_from (- w) (objs h r) @ iloc_upto (i - 1) y);
                       (res, m') = fit_predict m context;
                       st2 = st1\<lparr>self := (self st1)\<lparr>arima_model := Some m'\<rparr>,
                                 calls := calls st1 @ [(i, FitPredict context res)]\<rparr>
                   in case res of
                        Inl e \<Rightarrow> (Some e, st2)
                      | Inr v \<Rightarrow>
                          (None, st2\<lparr>prediction := loc_set (prediction st2) (fst (y ! i)) v,
                                     retrain_idx := retrain_idx st2 + 1\<rparr>))))
      else
        (case arima_model (self st) of
           None \<Rightarrow> (Some AttributeError, st)
         | Some m \<Rightarrow>
             (let (res, m') = model_predict m;
                  st2 = st\<lparr>self := (self st)\<lparr>arima_model := Some m'\<rparr>,
                           calls := calls st @ [(i, ModelPredict res)]\<rparr>
              in case res of
                   Inl e \<Rightarrow> (Some e, st2)
                 | Inr v \<Rightarrow>
                     (None, st2\<lparr>prediction := loc_set (prediction st2) (fst (y ! i)) v,
                                retrain_idx := retrain_idx st2 + 1\<rparr>))))"

text \<open>The loop over the indices; an exception ends it.\<close>

fun predict_loop ::
  "('m \<Rightarrow> ('t, 'v) series \<Rightarrow> (error + 'v option) \<times> 'm) \<Rightarrow> ('m \<Rightarrow> (error + 'v option) \<times> 'm) \<Rightarrow>
   ('t, 'v) store \<Rightarrow> ('t, 'v) series \<Rightarrow> int \<Rightarrow> int option \<Rightarrow> nat list \<Rightarrow>
   ('t, 'v, 'm) predict_state \<Rightarrow> error option \<times> ('t, 'v, 'm) predict_state" where
  "predict_loop fit_predict model_predict h y retrain_freq train_window [] st = (None, st)"
| "predict_loop fit_predict model_predict h y retrain_freq train_window (i # is) st =
     (case predict_step fit_predict model_predict h y retrain_freq train_window i st of
        (Some e, st') \<Rightarrow> (Some e, st')
      | (None, st') \<Rightarrow>
          predict_loop fit_predict model_predict h y retrain_freq train_window is st')"

text \<open>
  \<open>predict\<close>: \<open>prediction\<close> starts as a series of NaN over the whole index of \<open>y\<close>.
  The result is the returned series or the exception, the forecaster as the call leaves
  it, and the calls made.
\<close>

definition predict ::
  "('m \<Rightarrow> ('t, 'v) series \<Rightarrow> (error + 'v option) \<times> 'm) \<Rightarrow> ('m \<Rightarrow> (error + 'v option) \<times> 'm) \<Rightarrow>
   'm forecaster \<Rightarrow> ('t, 'v) store \<Rightarrow> ('t, 'v) series \<Rightarrow> int \<Rightarrow> int option \<Rightarrow>
   (error + ('t, 'v) series) \<times> 'm forecaster \<times> (nat \<times> ('t, 'v) event) list" where
  "predict fit_predict model_predict self0 h y retrain_freq train_window =
     (let st0 = \<lparr>self = self0, prediction = map (\<lambda>(t, x). (t, None)) y,
                 retrain_idx = 0, calls = []\<rparr>;
          (err, st) = predict_loop fit_predict model_predict h y retrain_freq train_window
                        [1..<length y] st0
      in (case err of Some e \<Rightarrow> Inl e | None \<Rightarrow> Inr (prediction st), self st, calls st))"

section \<open>Vocabulary of the properties\<close>

subsection \<open>Differencing and the trace of the trend loop\<close>

text \<open>
  \<open>differenced k s\<close> is the series the stationarity test receives at order \<open>k\<close>: what
  the inner loop of \<open>get_trend_order\<close> leaves after \<open>k\<close> rounds of \<open>diff().dropna()\<close>.
\<close>

definition differenced :: "nat \<Rightarrow> ('t, 'v::minus) series \<Rightarrow> ('t, 'v) series" where
  "differenced k s = fst (difference k s [])"

text \<open>The events of one pass of the while loop at order \<open>k\<close>, and of the passes \<open>lo..<hi\<close>.\<close>

definition order_events ::
  "(('t, 'v::minus) series \<Rightarrow> error + bool) \<Rightarrow> ('t, 'v) series \<Rightarrow> nat \<Rightarrow> ('t, 'v) event list" where
  "order_events sd y k =
     map (\<lambda>j. DiffDropna (differenced j y)) [0..<k]
     @ [ShouldDiff (differenced k y) (sd (differenced k y))]"

definition trend_events ::
  "(('t, 'v::minus) series \<Rightarrow> error + bool) \<Rightarrow> ('t, 'v) series \<Rightarrow> nat \<Rightarrow> nat \<Rightarrow>
   ('t, 'v) event list" where
  "trend_events sd y lo hi = concat (map (order_events sd y) [lo..<hi])"

text \<open>What the loop returns when it stops at order \<open>n\<close> on the test outcome \<open>r\<close>.\<close>

definition trend_result :: "error + bool \<Rightarrow> nat \<Rightarrow> error + nat" where
  "trend_result r n = (case r of Inl e \<Rightarrow> Inl e | Inr b \<Rightarrow> Inr n)"

fun is_auto_arima :: "('t, 'v) event \<Rightarrow> bool" where
  "is_auto_arima (AutoArima a ok) = True"
| "is_auto_arima _ = False"

subsection \<open>The calls of predict\<close>

fun is_refit :: "('t, 'v) event \<Rightarrow> bool" where
  "is_refit (FitPredict s r) = True"
| "is_refit _ = False"

fun is_forecast :: "('t, 'v) event \<Rightarrow> bool" where
  "is_forecast (ModelPredict r) = True"
| "is_forecast _ = False"

text \<open>The outcome of a model call and the series a refit was given.\<close>

fun outcome :: "('t, 'v) event \<Rightarrow> error + 'v option" where
  "outcome (FitPredict s r) = r"
| "outcome (ModelPredict r) = r"
| "outcome _ = Inr None"

fun context_of :: "('t, 'v) event \<Rightarrow> ('t, 'v) series" where
  "context_of (FitPredict s r) = s"
| "context_of _ = []"

text \<open>
  The series the code builds for the refit at loop index \<open>i\<close> from the history
  \<open>hist\<close>, as written in the two branches of \<open>predict\<close>.
\<close>

definition retrain_context ::
  "('t, 'v) series \<Rightarrow> int option \<Rightarrow> ('t, 'v) series \<Rightarrow> nat \<Rightarrow> ('t, 'v) series" where
  "retrain_context hist tw y i =
     (case tw of None \<Rightarrow> hist | Some w \<Rightarrow> iloc_from (- w) hist) @ iloc_upto (i - 1) y"

text \<open>
  In the words of the specification: the last \<open>n\<close> points of a series (all of it when
  it has no more than \<open>n\<close>), and the retained history of a window setting.
\<close>

definition last_points :: "nat \<Rightarrow> 'a list \<Rightarrow> 'a list" where
  "last_points n s = drop (length s - n) s"

definition retained :: "int option \<Rightarrow> 'a list \<Rightarrow> 'a list" where
  "retained tw hist = (case tw of None \<Rightarrow> hist | Some w \<Rightarrow> last_points (nat w) hist)"

text \<open>The call made by a pass that retrains (or does not) at loop index \<open>i\<close>.\<close>

definition call_kind ::
  "('t, 'v) store \<Rightarrow> ('t, 'v) series \<Rightarrow> int option \<Rightarrow> ref option \<Rightarrow> bool \<Rightarrow> nat \<Rightarrow>
   ('t, 'v) event \<Rightarrow> bool" where
  "call_kind h y tw yt retrain i e =
     (if retrain
      then is_refit e \<and> (\<exists>a. yt = Some a \<and> context_of e = retrain_context (objs h a) tw y i)
      else is_forecast e)"

definition call_ok ::
  "('t, 'v) store \<Rightarrow> ('t, 'v) series \<Rightarrow> int option \<Rightarrow> ref option \<Rightarrow> error option \<Rightarrow>
   nat \<times> ('t, 'v) event \<Rightarrow> bool" where
  "call_ok h y tw yt err c =
     (case c of (i, e) \<Rightarrow>
        (is_refit e \<or> is_forecast e)
        \<and> (is_refit e \<longrightarrow> (\<exists>a. yt = Some a \<and> context_of e = retrain_context (objs h a) tw y i))
        \<and> (\<forall>x. outcome e = Inl x \<longrightarrow> err = Some x))"

subsection \<open>Test doubles for the collaborators\<close>

text \<open>
  A stationarity test that asks for differencing while the series has three points or
  more, and one that cannot run on fewer than three points.
\<close>

definition adf_by_length :: "(nat, int) series \<Rightarrow> error + bool" where
  "adf_by_length s = Inr (3 \<le> length s)"

definition adf_failing :: "(nat, int) series \<Rightarrow> error + bool" where
  "adf_failing s = (if length s < 3 then Inl (LibraryError ''too short'') else Inr True)"

text \<open>A stationarity test that asks for more differencing whatever it is given.\<close>

definition adf_always_true :: "(nat, int) series \<Rightarrow> error + bool" where
  "adf_always_true s = Inr True"

definition walk3 :: "(nat, int) series" where
  "walk3 = [(0, Some 1), (1, Some 3), (2, Some 6)]"

text \<open>Test doubles for \<open>auto_arima\<close>: the fitted model is the number of fits so far.\<close>

definition auto_arima_ok :: "(nat, int) auto_arima_args \<Rightarrow> error + nat" where
  "auto_arima_ok a = Inr 0"

text \<open>
  Two more: a search whose model is the \<open>max_order\<close> it was given, so that the stored
  model shows which arguments the search received, and a search that finds no model.
\<close>

definition auto_arima_by_cap :: "(nat, int) auto_arima_args \<Rightarrow> error + nat" where
  "auto_arima_by_cap a = Inr (nat (arg_max_order a))"

definition auto_arima_failing :: "(nat, int) auto_arima_args \<Rightarrow> error + nat" where
  "auto_arima_failing a = Inl (LibraryError ''no model'')"

definition store1 :: "(nat, int) store" where
  "store1 = \<lparr>objs = (\<lambda>r. [])(0 := walk3), next_ref = 1\<rparr>"

definition unfitted :: "nat forecaster" where
  "unfitted = init_forecaster 0 0 5 5"

text \<open>
  Test doubles for the fitted model: a refit forecasts the length of its context and
  counts itself, a plain forecast is 0; and a refit that always raises.
\<close>

definition fit_predict_ok :: "nat \<Rightarrow> (nat, int) series \<Rightarrow> (error + int option) \<times> nat" where
  "fit_predict_ok m s = (Inr (Some (int (length s))), Suc m)"

definition model_predict_ok :: "nat \<Rightarrow> (error + int option) \<times> nat" where
  "model_predict_ok m = (Inr (Some 0), m)"

definition fit_predict_failing :: "nat \<Rightarrow> (nat, int) series \<Rightarrow> (error + int option) \<times> nat" where
  "fit_predict_failing m s = (Inl (LibraryError ''no model''), m)"

definition fitted :: "nat forecaster" where
  "fitted = unfitted\<lparr>arima_model := Some 0, y_train := Some 0\<rparr>"

definition oos4 :: "(nat, int) series" where
  "oos4 = [(10, Some 7), (11, Some 9), (12, Some 8), (13, Some 10)]"

definition oos2 :: "(nat, int) series" where
  "oos2 = [(10, Some 7), (11, Some 9)]"

subsection \<open>The retrain schedule\<close>




text \<open>An out-of-sample series whose timestamps go backwards.\<close>

definition oos_backwards :: "(nat, int) series" where
  "oos_backwards = [(13, Some 10), (12, Some 8), (11, Some 9)]"


section \<open>get\_trend\_order: the minimal difference order\<close>

lemma difference_fst: "fst (difference k s ev) = fst (difference k s [])"
  by (induction k arbitrary: s ev) (simp, metis difference.simps(2))

lemma differenced_0 [simp]: "differenced 0 s = s"
  by (simp add: differenced_def)

lemma differenced_Suc: "differenced (Suc k) s = differenced k (dropna (diff s))"
  unfolding differenced_def by (simp add: difference_fst[of k _ "[DiffDropna s]"])

lemma difference_eq:
  "difference k s ev =
     (differenced k s, ev @ map (\<lambda>j. DiffDropna (differenced j s)) [0..<k])"
proof (induction k arbitrary: s ev)
  case 0 show ?case by simp
next
  case (Suc k)
  have "map (\<lambda>j. DiffDropna (differenced j s)) [0..<Suc k]
      = DiffDropna s # map (\<lambda>j. DiffDropna (differenced (Suc j) s)) [0..<k]"
    by (simp only: upt_conv_Cons[of 0 "Suc k"] map_Suc_upt[symmetric]) (simp del: upt_Suc)
  then show ?case using Suc.IH[of "dropna (diff s)"] by (simp add: differenced_Suc del: upt_Suc)
qed

lemma trend_loop_flag:
  "trend_loop sd y d0 n True ev = Some (Inr d0, ev)"
  by (subst trend_loop.simps) simp

lemma trend_loop_step:
  "trend_loop sd y d0 n False ev =
     (case sd (differenced n y) of
        Inl e \<Rightarrow> Some (Inl e, ev @ order_events sd y n)
      | Inr b \<Rightarrow> if b then trend_loop sd y d0 (Suc n) False (ev @ order_events sd y n)
                else Some (Inr n, ev @ order_events sd y n))"
  by (subst trend_loop.simps)
     (simp add: difference_eq order_events_def trend_loop_flag split: sum.splits)

lemma trend_loop_returns:
  assumes "\<forall>k. lo \<le> k \<and> k < n \<longrightarrow> sd (differenced k y) = Inr True"
    and "sd (differenced n y) \<noteq> Inr True" and "lo \<le> n"
  shows "trend_loop sd y d0 lo False ev =
           Some (trend_result (sd (differenced n y)) n, ev @ trend_events sd y lo (Suc n))"
  using assms
proof (induction "n - lo" arbitrary: lo ev)
  case 0
  then have [simp]: "lo = n" by simp
  show ?case using 0(3)
    by (subst trend_loop_step)
       (auto simp: trend_result_def trend_events_def split: sum.splits)
next
  case (Suc m)
  then have lt: "lo < n" by simp
  with Suc.prems have t: "sd (differenced lo y) = Inr True" by simp
  have ih: "trend_loop sd y d0 (Suc lo) False (ev @ order_events sd y lo) =
      Some (trend_result (sd (differenced n y)) n,
            (ev @ order_events sd y lo) @ trend_events sd y (Suc lo) (Suc n))"
    using Suc.hyps(2) Suc.prems lt by (intro Suc.hyps(1)) auto
  have "trend_events sd y lo (Suc n) = order_events sd y lo @ trend_events sd y (Suc lo) (Suc n)"
    using lt unfolding trend_events_def by (subst upt_conv_Cons) auto
  then show ?case using ih t by (subst trend_loop_step) simp
qed

lemma trend_loop_stops:
  "trend_loop sd y d0 lo fl ev = Some res \<Longrightarrow> fl = False \<longrightarrow>
   (\<exists>n\<ge>lo. (\<forall>k. lo \<le> k \<and> k < n \<longrightarrow> sd (differenced k y) = Inr True)
        \<and> sd (differenced n y) \<noteq> Inr True)"
proof (induction rule: trend_loop.raw_induct[rotated 1, consumes 1, case_names step])
  case (step tl sd y d0 order fl ev res)
  show ?case
  proof
    assume fl: "fl = False"
    show "\<exists>n\<ge>order. (\<forall>k. order \<le> k \<and> k < n \<longrightarrow> sd (differenced k y) = Inr True)
        \<and> sd (differenced n y) \<noteq> Inr True"
    proof (cases "sd (differenced order y) = Inr True")
      case False
      then show ?thesis by (intro exI[of _ order]) auto
    next
      case True
      with step(2) fl have "tl sd y d0 (order + 1) False
          (snd (difference order y ev) @ [ShouldDiff (differenced order y) (Inr True)]) = Some res"
        by (simp add: difference_eq)
      from step(1)[OF this] obtain n where n: "n \<ge> order + 1"
        "\<forall>k. order + 1 \<le> k \<and> k < n \<longrightarrow> sd (differenced k y) = Inr True"
        "sd (differenced n y) \<noteq> Inr True" by auto
      have "\<forall>k. order \<le> k \<and> k < n \<longrightarrow> sd (differenced k y) = Inr True"
      proof (intro allI impI)
        fix k assume "order \<le> k \<and> k < n"
        then show "sd (differenced k y) = Inr True"
          using True n(2) by (cases "k = order") auto
      qed
      with n show ?thesis by (intro exI[of _ n]) auto
    qed
  qed
qed

text \<open>
  The run of \<open>get_trend_order\<close>, completely: it returns exactly when some order's test
  does not ask for more differencing (it says no, or it raises), and then it stops at the
  first such order, having made the passes of the orders up to it.
\<close>

lemma get_trend_order_returns:
  assumes "\<forall>k<n. sd (differenced k y) = Inr True" and "sd (differenced n y) \<noteq> Inr True"
  shows "get_trend_order sd y =
           Some (trend_result (sd (differenced n y)) n, trend_events sd y 0 (Suc n))"
  unfolding get_trend_order_def
  using trend_loop_returns[of 0 n sd y 0 "[]"] assms by simp

lemma get_trend_order_stops:
  assumes "get_trend_order sd y = Some res"
  obtains n where "\<forall>k<n. sd (differenced k y) = Inr True"
    and "sd (differenced n y) \<noteq> Inr True"
    and "res = (trend_result (sd (differenced n y)) n, trend_events sd y 0 (Suc n))"
proof -
  from trend_loop_stops[OF assms[unfolded get_trend_order_def]]
  obtain n where n: "\<forall>k<n. sd (differenced k y) = Inr True"
    "sd (differenced n y) \<noteq> Inr True" by auto
  from get_trend_order_returns[OF n] assms
  have "res = (trend_result (sd (differenced n y)) n, trend_events sd y 0 (Suc n))" by simp
  with n that show thesis by blast
qed

text \<open>A test that asks for differencing at every order keeps the loop running for ever.\<close>

lemma get_trend_order_diverges:
  assumes "\<forall>k. sd (differenced k y) = Inr True"
  shows "get_trend_order sd y = None"
proof (cases "get_trend_order sd y")
  case None
  then show ?thesis .
next
  case (Some res)
  from get_trend_order_stops[OF Some] assms show ?thesis by metis
qed

lemma trend_events_no_auto_arima: "\<forall>e \<in> set (trend_events sd y lo hi). \<not> is_auto_arima e"
  by (auto simp: trend_events_def order_events_def)

lemma walk3_differenced: "differenced (Suc 0) walk3 = [(1, Some 2), (2, Some 3)]"
  by (simp add: differenced_Suc walk3_def dropna_def)

lemma walk3_length: "length walk3 = 3"
  by (simp add: walk3_def)

lemma walk3_run_by_length:
  "get_trend_order adf_by_length walk3
     = Some (Inr 1, [ShouldDiff walk3 (Inr True), DiffDropna walk3,
                     ShouldDiff [(1, Some 2), (2, Some 3)] (Inr False)])"
proof -
  have t0: "adf_by_length (differenced 0 walk3) = Inr True"
    by (simp add: adf_by_length_def walk3_length)
  have t1: "adf_by_length (differenced (Suc 0) walk3) \<noteq> Inr True"
    by (simp add: adf_by_length_def walk3_differenced)
  show ?thesis
    using get_trend_order_returns[of "Suc 0" adf_by_length walk3] t0 t1
    by (simp add: trend_result_def trend_events_def order_events_def walk3_differenced
        adf_by_length_def walk3_length)
qed

lemma walk3_run_failing:
  "get_trend_order adf_failing walk3
     = Some (Inl (LibraryError ''too short''),
             [ShouldDiff walk3 (Inr True), DiffDropna walk3,
              ShouldDiff [(1, Some 2), (2, Some 3)] (Inl (LibraryError ''too short''))])"
proof -
  have t0: "adf_failing (differenced 0 walk3) = Inr True"
    by (simp add: adf_failing_def walk3_length)
  have t1: "adf_failing (differenced (Suc 0) walk3) \<noteq> Inr True"
    by (simp add: adf_failing_def walk3_differenced)
  show ?thesis
    using get_trend_order_returns[of "Suc 0" adf_failing walk3] t0 t1
    by (simp add: trend_result_def trend_events_def order_events_def walk3_differenced
        adf_failing_def walk3_length)
qed

text \<open>
  C4. Whenever \<open>get_trend_order\<close> returns an order \<open>d\<close>, the test on the series
  differenced \<open>d\<close> times reports that no further differencing is needed, and for every
  smaller order it reported that differencing is needed; and on a series the test already
  accepts, the function returns 0 having made one call of the test, on the series itself,
  and no call of \<open>diff\<close>.
\<close>

theorem get_trend_order_minimal:
  "(\<forall>d ev. get_trend_order sd y = Some (Inr d, ev) \<longrightarrow>
       sd (differenced d y) = Inr False \<and> (\<forall>e<d. sd (differenced e y) = Inr True))
   \<and> (sd y = Inr False \<longrightarrow> get_trend_order sd y = Some (Inr 0, [ShouldDiff y (Inr False)]))"
proof (intro conjI)
  show "\<forall>d ev. get_trend_order sd y = Some (Inr d, ev) \<longrightarrow>
       sd (differenced d y) = Inr False \<and> (\<forall>e<d. sd (differenced e y) = Inr True)"
  proof (intro allI impI)
    fix d ev assume ret: "get_trend_order sd y = Some (Inr d, ev)"
    from get_trend_order_stops[OF ret] obtain n where n:
      "\<forall>k<n. sd (differenced k y) = Inr True" "sd (differenced n y) \<noteq> Inr True"
      "(Inr d, ev) = (trend_result (sd (differenced n y)) n, trend_events sd y 0 (Suc n))"
      by blast
    from n(3) have "trend_result (sd (differenced n y)) n = Inr d" by simp
    then obtain b where b: "sd (differenced n y) = Inr b" "n = d"
      by (auto simp: trend_result_def split: sum.splits)
    with n(2) have "b = False" by auto
    with b n(1) show "sd (differenced d y) = Inr False
        \<and> (\<forall>e<d. sd (differenced e y) = Inr True)" by simp
  qed
next
  show "sd y = Inr False \<longrightarrow> get_trend_order sd y = Some (Inr 0, [ShouldDiff y (Inr False)])"
  proof
    assume st: "sd y = Inr False"
    have "get_trend_order sd y =
        Some (trend_result (sd (differenced 0 y)) 0, trend_events sd y 0 (Suc 0))"
      by (rule get_trend_order_returns) (simp_all add: st)
    then show "get_trend_order sd y = Some (Inr 0, [ShouldDiff y (Inr False)])"
      by (simp add: st trend_result_def trend_events_def order_events_def)
  qed
qed

theorem get_trend_order_minimal_witness:
  "get_trend_order adf_by_length walk3
     = Some (Inr 1, [ShouldDiff walk3 (Inr True), DiffDropna walk3,
                     ShouldDiff [(1, Some 2), (2, Some 3)] (Inr False)])
   \<and> adf_by_length (differenced 1 walk3) = Inr False
   \<and> adf_by_length (differenced 0 walk3) = Inr True
   \<and> adf_by_length [(1, Some 2), (2, Some 3)] = Inr False
   \<and> get_trend_order adf_by_length [(1, Some 2), (2, Some 3)]
       = Some (Inr 0, [ShouldDiff [(1, Some 2), (2, Some 3)] (Inr False)])"
proof -
  have st: "adf_by_length [(1, Some 2), (2, Some 3)] = Inr False"
    by (simp add: adf_by_length_def)
  from get_trend_order_minimal[of adf_by_length walk3] walk3_run_by_length
  have "adf_by_length (differenced 1 walk3) = Inr False
      \<and> adf_by_length (differenced 0 walk3) = Inr True" by auto
  moreover from get_trend_order_minimal[of adf_by_length "[(1, Some 2), (2, Some 3)]"] st
  have "get_trend_order adf_by_length [(1, Some 2), (2, Some 3)]
       = Some (Inr 0, [ShouldDiff [(1, Some 2), (2, Some 3)] (Inr False)])" by blast
  ultimately show ?thesis using walk3_run_by_length st by blast
qed

section \<open>get\_best\_arima\_model\<close>

lemma fit_on_failure:
  assumes "get_trend_order sd (objs h r) = Some (Inl e, ev)"
  shows "get_best_arima_model sd aa s h r verbose = Some (Inl e, s, h, ev)"
  using assms by (simp add: get_best_arima_model_def)

lemma fit_on_order:
  assumes "get_trend_order sd (objs h r) = Some (Inr d, ev)"
  shows "\<exists>res s1 ok.
           get_best_arima_model sd aa s h r verbose =
             Some (res, s1, snd (copy_series h r),
                   ev @ [AutoArima \<lparr>arg_y = objs h r, arg_d = d, arg_start_p = start_p s,
                           arg_start_q = start_q s, arg_max_p = max_p s, arg_max_q = max_q s,
                           arg_max_order = max_p s + max_q s + int d,
                           arg_trace = verbose\<rparr> ok])
           \<and> y_train s1 = Some (next_ref h)"
  using assms
  by (auto simp: get_best_arima_model_def copy_series_def Let_def add.commute
      split: sum.splits)

text \<open>
  C7. If the stationarity test raises at the first order at which it does not ask for
  more differencing, \<open>get_trend_order\<close> ends with that exception and returns no order,
  and so does \<open>get_best_arima_model\<close>: it leaves the forecaster and the store as they
  were and never calls \<open>auto_arima\<close>.
\<close>

theorem stationarity_failure_propagates:
  assumes "\<forall>k<n. sd (differenced k (objs h r)) = Inr True"
    and "sd (differenced n (objs h r)) = Inl e"
  shows "\<exists>ev. get_trend_order sd (objs h r) = Some (Inl e, ev)
           \<and> get_best_arima_model sd aa s h r verbose = Some (Inl e, s, h, ev)
           \<and> (\<forall>c \<in> set ev. \<not> is_auto_arima c)"
proof -
  have "get_trend_order sd (objs h r) =
      Some (trend_result (sd (differenced n (objs h r))) n,
            trend_events sd (objs h r) 0 (Suc n))"
    by (rule get_trend_order_returns) (use assms in simp_all)
  then have run: "get_trend_order sd (objs h r) =
      Some (Inl e, trend_events sd (objs h r) 0 (Suc n))"
    by (simp add: assms(2) trend_result_def)
  from fit_on_failure[OF run] run trend_events_no_auto_arima
  show ?thesis by blast
qed

theorem stationarity_failure_propagates_witness:
  "get_trend_order adf_failing (objs store1 0)
     = Some (Inl (LibraryError ''too short''),
             [ShouldDiff walk3 (Inr True), DiffDropna walk3,
              ShouldDiff [(1, Some 2), (2, Some 3)] (Inl (LibraryError ''too short''))])
   \<and> get_best_arima_model adf_failing auto_arima_ok unfitted store1 0 False
     = Some (Inl (LibraryError ''too short''), unfitted, store1,
             [ShouldDiff walk3 (Inr True), DiffDropna walk3,
              ShouldDiff [(1, Some 2), (2, Some 3)] (Inl (LibraryError ''too short''))])"
proof -
  have o: "objs store1 0 = walk3" by (simp add: store1_def)
  note len = walk3_length
  have t0: "\<forall>k<Suc 0. adf_failing (differenced k (objs store1 0)) = Inr True"
    by (simp add: adf_failing_def o len)
  have t1: "adf_failing (differenced (Suc 0) (objs store1 0)) = Inl (LibraryError ''too short'')"
    by (simp add: adf_failing_def o walk3_differenced)
  have ev: "trend_events adf_failing walk3 0 (Suc (Suc 0))
      = [ShouldDiff walk3 (Inr True), DiffDropna walk3,
         ShouldDiff [(1, Some 2), (2, Some 3)] (Inl (LibraryError ''too short''))]"
    by (simp add: trend_events_def order_events_def walk3_differenced adf_failing_def len)
  have run: "get_trend_order adf_failing (objs store1 0)
     = Some (Inl (LibraryError ''too short''), trend_events adf_failing walk3 0 (Suc (Suc 0)))"
    using get_trend_order_returns[of "Suc 0" adf_failing walk3] t0 t1
    by (simp add: o trend_result_def)
  from stationarity_failure_propagates[OF t0 t1, of auto_arima_ok unfitted False] run
  show ?thesis by (auto simp: ev o)
qed

lemma fit_never_returns:
  assumes "get_trend_order sd (objs h r) = None"
  shows "get_best_arima_model sd aa s h r verbose = None"
  using assms by (simp add: get_best_arima_model_def)

lemma fit_on_order_outcome:
  assumes "get_trend_order sd (objs h r) = Some (Inr d, ev)"
  shows "get_best_arima_model sd aa s h r verbose =
           (let a = \<lparr>arg_y = objs h r, arg_d = d, arg_start_p = start_p s,
                      arg_start_q = start_q s, arg_max_p = max_p s, arg_max_q = max_q s,
                      arg_max_order = max_p s + max_q s + int d, arg_trace = verbose\<rparr>
            in case aa a of
                 Inl e \<Rightarrow>
                   Some (Inl e, s\<lparr>y_train := Some (next_ref h)\<rparr>, snd (copy_series h r),
                         ev @ [AutoArima a False])
               | Inr m \<Rightarrow>
                   Some (Inr (), s\<lparr>y_train := Some (next_ref h), arima_model := Some m\<rparr>,
                         snd (copy_series h r), ev @ [AutoArima a True]))"
  using assms
  by (simp add: get_best_arima_model_def copy_series_def Let_def add.commute
      split: sum.splits)

lemma trend_run_no_auto_arima:
  assumes "get_trend_order sd y = Some (res, ev)"
  shows "filter is_auto_arima ev = []"
proof -
  from get_trend_order_stops[OF assms] obtain n where
    "(res, ev) = (trend_result (sd (differenced n y)) n, trend_events sd y 0 (Suc n))"
    by blast
  then have "ev = trend_events sd y 0 (Suc n)" by simp
  then show ?thesis
    using trend_events_no_auto_arima[of sd y 0 "Suc n"] by (simp add: filter_empty_conv)
qed

text \<open>
  C9, as the source has it. \<open>get_best_arima_model\<close> detects the trend order of the
  training series first, and what it does next depends on how the detection ends.

  \<^item> When the detection returns an order \<open>d\<close>, the method returns, and it has applied
    \<open>auto_arima\<close> exactly once, to the training series, \<open>d\<close>, the configured \<open>start_p\<close>,
    \<open>start_q\<close>, \<open>max_p\<close>, \<open>max_q\<close>, the cap \<open>max_p + max_q + d\<close> and the verbosity flag:
    the outcome of the method is the outcome of that application (its exception, or
    success with the model it returned stored in \<open>arima_model\<close>), the copy of the
    training series is stored in \<open>y_train\<close> either way, and the call is the last event
    and the only \<open>auto_arima\<close> event of the run.
  \<^item> When the stationarity test raises, the method ends with that exception, state
    unchanged, and the run has no \<open>auto_arima\<close> event.
  \<^item> When the detection never ends, the method does not return.
\<close>

theorem fit_calls_auto_arima_once:
  "(\<forall>d ev. get_trend_order sd (objs h r) = Some (Inr d, ev) \<longrightarrow>
      (let a = \<lparr>arg_y = objs h r, arg_d = d, arg_start_p = start_p s,
                 arg_start_q = start_q s, arg_max_p = max_p s, arg_max_q = max_q s,
                 arg_max_order = max_p s + max_q s + int d, arg_trace = verbose\<rparr>;
           call = AutoArima a (case aa a of Inl e \<Rightarrow> False | Inr m \<Rightarrow> True)
       in get_best_arima_model sd aa s h r verbose =
            Some (case aa a of Inl e \<Rightarrow> Inl e | Inr m \<Rightarrow> Inr (),
                  case aa a of
                    Inl e \<Rightarrow> s\<lparr>y_train := Some (next_ref h)\<rparr>
                  | Inr m \<Rightarrow> s\<lparr>y_train := Some (next_ref h), arima_model := Some m\<rparr>,
                  snd (copy_series h r),
                  ev @ [call])
          \<and> filter is_auto_arima (ev @ [call]) = [call]))
   \<and> (\<forall>e ev. get_trend_order sd (objs h r) = Some (Inl e, ev) \<longrightarrow>
        get_best_arima_model sd aa s h r verbose = Some (Inl e, s, h, ev)
        \<and> filter is_auto_arima ev = [])
   \<and> (get_trend_order sd (objs h r) = None \<longrightarrow>
        get_best_arima_model sd aa s h r verbose = None)"
proof -
  have returned: "let a = \<lparr>arg_y = objs h r, arg_d = d, arg_start_p = start_p s,
                 arg_start_q = start_q s, arg_max_p = max_p s, arg_max_q = max_q s,
                 arg_max_order = max_p s + max_q s + int d, arg_trace = verbose\<rparr>;
           call = AutoArima a (case aa a of Inl e \<Rightarrow> False | Inr m \<Rightarrow> True)
       in get_best_arima_model sd aa s h r verbose =
            Some (case aa a of Inl e \<Rightarrow> Inl e | Inr m \<Rightarrow> Inr (),
                  case aa a of
                    Inl e \<Rightarrow> s\<lparr>y_train := Some (next_ref h)\<rparr>
                  | Inr m \<Rightarrow> s\<lparr>y_train := Some (next_ref h), arima_model := Some m\<rparr>,
                  snd (copy_series h r),
                  ev @ [call])
          \<and> filter is_auto_arima (ev @ [call]) = [call]"
    if run: "get_trend_order sd (objs h r) = Some (Inr d, ev)" for d ev
    using fit_on_order_outcome[OF run, of aa s verbose] trend_run_no_auto_arima[OF run]
    by (simp add: Let_def split: sum.splits)
  have raised: "get_best_arima_model sd aa s h r verbose = Some (Inl e, s, h, ev)
        \<and> filter is_auto_arima ev = []"
    if run: "get_trend_order sd (objs h r) = Some (Inl e, ev)" for e ev
    using fit_on_failure[OF run] trend_run_no_auto_arima[OF run] by simp
  have diverged: "get_best_arima_model sd aa s h r verbose = None"
    if "get_trend_order sd (objs h r) = None"
    using that by (rule fit_never_returns)
  from returned raised diverged show ?thesis by blast
qed

theorem fit_calls_auto_arima_once_witness:
  "get_trend_order adf_by_length (objs store1 0)
     = Some (Inr 1, [ShouldDiff walk3 (Inr True), DiffDropna walk3,
                     ShouldDiff [(1, Some 2), (2, Some 3)] (Inr False)])
   \<and> auto_arima_by_cap
       \<lparr>arg_y = walk3, arg_d = 1, arg_start_p = 0, arg_start_q = 0, arg_max_p = 5,
        arg_max_q = 5, arg_max_order = 11, arg_trace = True\<rparr> = Inr 11
   \<and> get_best_arima_model adf_by_length auto_arima_by_cap unfitted store1 0 True
     = Some (Inr (), unfitted\<lparr>y_train := Some 1, arima_model := Some 11\<rparr>,
             \<lparr>objs = ((\<lambda>r. [])(0 := walk3))(1 := walk3), next_ref = 2\<rparr>,
             [ShouldDiff walk3 (Inr True), DiffDropna walk3,
              ShouldDiff [(1, Some 2), (2, Some 3)] (Inr False),
              AutoArima \<lparr>arg_y = walk3, arg_d = 1, arg_start_p = 0, arg_start_q = 0,
                arg_max_p = 5, arg_max_q = 5, arg_max_order = 11, arg_trace = True\<rparr> True])
   \<and> filter is_auto_arima
       [ShouldDiff walk3 (Inr True), DiffDropna walk3,
        ShouldDiff [(1, Some 2), (2, Some 3)] (Inr False),
        AutoArima \<lparr>arg_y = walk3, arg_d = 1, arg_start_p = 0, arg_start_q = 0,
          arg_max_p = 5, arg_max_q = 5, arg_max_order = 11, arg_trace = True\<rparr> True]
     = [AutoArima \<lparr>arg_y = walk3, arg_d = 1, arg_start_p = 0, arg_start_q = 0,
          arg_max_p = 5, arg_max_q = 5, arg_max_order = 11, arg_trace = True\<rparr> True]
   \<and> get_best_arima_model adf_by_length auto_arima_failing unfitted store1 0 True
     = Some (Inl (LibraryError ''no model''), unfitted\<lparr>y_train := Some 1\<rparr>,
             \<lparr>objs = ((\<lambda>r. [])(0 := walk3))(1 := walk3), next_ref = 2\<rparr>,
             [ShouldDiff walk3 (Inr True), DiffDropna walk3,
              ShouldDiff [(1, Some 2), (2, Some 3)] (Inr False),
              AutoArima \<lparr>arg_y = walk3, arg_d = 1, arg_start_p = 0, arg_start_q = 0,
                arg_max_p = 5, arg_max_q = 5, arg_max_order = 11, arg_trace = True\<rparr> False])
   \<and> get_trend_order adf_failing (objs store1 0)
     = Some (Inl (LibraryError ''too short''),
             [ShouldDiff walk3 (Inr True), DiffDropna walk3,
              ShouldDiff [(1, Some 2), (2, Some 3)] (Inl (LibraryError ''too short''))])
   \<and> get_best_arima_model adf_failing auto_arima_by_cap unfitted store1 0 True
     = Some (Inl (LibraryError ''too short''), unfitted, store1,
             [ShouldDiff walk3 (Inr True), DiffDropna walk3,
              ShouldDiff [(1, Some 2), (2, Some 3)] (Inl (LibraryError ''too short''))])
   \<and> get_trend_order adf_always_true (objs store1 0) = None
   \<and> get_best_arima_model adf_always_true auto_arima_by_cap unfitted store1 0 True = None"
proof -
  have o: "objs store1 0 = walk3" by (simp add: store1_def)
  have run: "get_trend_order adf_by_length (objs store1 0)
     = Some (Inr 1, [ShouldDiff walk3 (Inr True), DiffDropna walk3,
                     ShouldDiff [(1, Some 2), (2, Some 3)] (Inr False)])"
    using walk3_run_by_length by (simp add: o)
  have raise: "get_trend_order adf_failing (objs store1 0)
     = Some (Inl (LibraryError ''too short''),
             [ShouldDiff walk3 (Inr True), DiffDropna walk3,
              ShouldDiff [(1, Some 2), (2, Some 3)] (Inl (LibraryError ''too short''))])"
    using walk3_run_failing by (simp add: o)
  have never: "get_trend_order adf_always_true (objs store1 0) = None"
    by (rule get_trend_order_diverges) (simp add: adf_always_true_def)
  have h1: "snd (copy_series store1 0)
      = \<lparr>objs = ((\<lambda>r. [])(0 := walk3))(1 := walk3), next_ref = 2\<rparr>"
    by (simp add: copy_series_def store1_def)
  have n: "next_ref store1 = 1" by (simp add: store1_def)
  have cfg: "start_p unfitted = 0" "start_q unfitted = 0" "max_p unfitted = 5"
    "max_q unfitted = 5"
    by (simp_all add: unfitted_def init_forecaster_def)
  have found: "get_best_arima_model adf_by_length auto_arima_by_cap unfitted store1 0 True
     = Some (Inr (), unfitted\<lparr>y_train := Some 1, arima_model := Some 11\<rparr>,
             \<lparr>objs = ((\<lambda>r. [])(0 := walk3))(1 := walk3), next_ref = 2\<rparr>,
             [ShouldDiff walk3 (Inr True), DiffDropna walk3,
              ShouldDiff [(1, Some 2), (2, Some 3)] (Inr False),
              AutoArima \<lparr>arg_y = walk3, arg_d = 1, arg_start_p = 0, arg_start_q = 0,
                arg_max_p = 5, arg_max_q = 5, arg_max_order = 11, arg_trace = True\<rparr> True])"
    using fit_calls_auto_arima_once[where sd = adf_by_length and h = store1 and r = 0
      and aa = auto_arima_by_cap and s = unfitted and verbose = True] run
    by (simp add: o h1 n cfg auto_arima_by_cap_def Let_def)
  have no_model: "get_best_arima_model adf_by_length auto_arima_failing unfitted store1 0 True
     = Some (Inl (LibraryError ''no model''), unfitted\<lparr>y_train := Some 1\<rparr>,
             \<lparr>objs = ((\<lambda>r. [])(0 := walk3))(1 := walk3), next_ref = 2\<rparr>,
             [ShouldDiff walk3 (Inr True), DiffDropna walk3,
              ShouldDiff [(1, Some 2), (2, Some 3)] (Inr False),
              AutoArima \<lparr>arg_y = walk3, arg_d = 1, arg_start_p = 0, arg_start_q = 0,
                arg_max_p = 5, arg_max_q = 5, arg_max_order = 11, arg_trace = True\<rparr> False])"
    using fit_calls_auto_arima_once[where sd = adf_by_length and h = store1 and r = 0
      and aa = auto_arima_failing and s = unfitted and verbose = True] run
    by (simp add: o h1 n cfg auto_arima_failing_def Let_def)
  have raised: "get_best_arima_model adf_failing auto_arima_by_cap unfitted store1 0 True
     = Some (Inl (LibraryError ''too short''), unfitted, store1,
             [ShouldDiff walk3 (Inr True), DiffDropna walk3,
              ShouldDiff [(1, Some 2), (2, Some 3)] (Inl (LibraryError ''too short''))])"
    using fit_calls_auto_arima_once[where sd = adf_failing and h = store1 and r = 0
      and aa = auto_arima_by_cap and s = unfitted and verbose = True] raise
    by simp
  have diverged:
    "get_best_arima_model adf_always_true auto_arima_by_cap unfitted store1 0 True = None"
    using fit_calls_auto_arima_once[where sd = adf_always_true and h = store1 and r = 0
      and aa = auto_arima_by_cap and s = unfitted and verbose = True] never
    by simp
  from run raise never found no_model raised diverged
  show ?thesis by (simp add: auto_arima_by_cap_def)
qed

text \<open>
  C9, as the specification words it (\<open>for every training series, exactly once\<close>), does
  not hold. On the three-point series \<open>walk3\<close>, with a stationarity test that cannot
  run on fewer than three points, \<open>get_best_arima_model\<close> returns the test's exception
  and the run has no \<open>auto_arima\<close> event; with a test that always asks for more
  differencing it does not return at all.
\<close>

theorem fit_calls_auto_arima_once_counterexample:
  "get_best_arima_model adf_failing auto_arima_by_cap unfitted store1 0 False
     = Some (Inl (LibraryError ''too short''), unfitted, store1,
             [ShouldDiff walk3 (Inr True), DiffDropna walk3,
              ShouldDiff [(1, Some 2), (2, Some 3)] (Inl (LibraryError ''too short''))])
   \<and> length (filter is_auto_arima
       [ShouldDiff walk3 (Inr True), DiffDropna walk3,
        ShouldDiff [(1, Some 2), (2, Some 3)] (Inl (LibraryError ''too short''))]) = 0
   \<and> get_best_arima_model adf_always_true auto_arima_by_cap unfitted store1 0 False = None"
proof -
  have o: "objs store1 0 = walk3" by (simp add: store1_def)
  have run: "get_trend_order adf_failing (objs store1 0)
     = Some (Inl (LibraryError ''too short''),
             [ShouldDiff walk3 (Inr True), DiffDropna walk3,
              ShouldDiff [(1, Some 2), (2, Some 3)] (Inl (LibraryError ''too short''))])"
    using walk3_run_failing by (simp add: o)
  have "get_trend_order adf_always_true (objs store1 0) = None"
    by (rule get_trend_order_diverges) (simp add: adf_always_true_def)
  then have never: "get_best_arima_model adf_always_true auto_arima_by_cap unfitted store1 0 False
      = None"
    by (rule fit_never_returns)
  from fit_on_failure[OF run, of auto_arima_by_cap unfitted False]
    trend_run_no_auto_arima[OF run] never
  show ?thesis by simp
qed

section \<open>predict: the calls it makes\<close>

lemma predict_step_self:
  "predict_step fp mp h y rf tw i st = (err, st1) \<Longrightarrow>
     y_train (self st1) = y_train (self st) \<and> start_p (self st1) = start_p (self st)
     \<and> start_q (self st1) = start_q (self st) \<and> max_p (self st1) = max_p (self st)
     \<and> max_q (self st1) = max_q (self st)"
  by (auto simp: predict_step_def Let_def split: if_splits option.splits prod.splits sum.splits)

lemma predict_step_labels:
  "predict_step fp mp h y rf tw i st = (err, st1) \<Longrightarrow>
     map fst (prediction st1) = map fst (prediction st)"
  by (auto simp: predict_step_def Let_def loc_set_def split: if_splits option.splits prod.splits sum.splits)

lemma predict_step_calls:
  "predict_step fp mp h y rf tw i st = (err, st1) \<Longrightarrow>
     (calls st1 = calls st \<and> err = Some AttributeError \<and> self st1 = self st
        \<and> prediction st1 = prediction st
        \<and> (arima_model (self st) = None \<or> (rf \<le> retrain_idx st \<and> y_train (self st) = None)))
     \<or> (\<exists>e. calls st1 = calls st @ [(i, e)] \<and> arima_model (self st) \<noteq> None
          \<and> (if rf \<le> retrain_idx st
              then is_refit e \<and> (\<exists>a. y_train (self st) = Some a
                     \<and> context_of e = retrain_context (objs h a) tw y i)
              else is_forecast e)
          \<and> (case outcome e of
                Inl x \<Rightarrow> err = Some x \<and> prediction st1 = prediction st
              | Inr v \<Rightarrow> err = None
                  \<and> retrain_idx st1 = (if rf \<le> retrain_idx st then 1 else retrain_idx st + 1)
                  \<and> prediction st1 = loc_set (prediction st) (fst (y ! i)) v))"
proof (cases "arima_model (self st)")
  case None
  assume "predict_step fp mp h y rf tw i st = (err, st1)"
  with None show ?thesis
    by (auto simp: predict_step_def Let_def split: if_splits)
next
  case (Some m)
  assume step: "predict_step fp mp h y rf tw i st = (err, st1)"
  show ?thesis
  proof (cases "rf \<le> retrain_idx st")
    case False
    obtain res m' where mp: "mp m = (res, m')" by (cases "mp m")
    show ?thesis
      using step Some False mp
      by (intro disjI2 exI[of _ "ModelPredict res"])
         (auto simp: predict_step_def Let_def split: sum.splits)
  next
    case True
    show ?thesis
    proof (cases "y_train (self st)")
      case None
      with step Some True show ?thesis
        by (auto simp: predict_step_def Let_def)
    next
      case (Some a)
      obtain res m' where fp: "fp m (retrain_context (objs h a) tw y i) = (res, m')"
        by (cases "fp m (retrain_context (objs h a) tw y i)")
      show ?thesis
        using step \<open>arima_model (self st) = Some m\<close> True Some fp
        by (intro disjI2 exI[of _ "FitPredict (retrain_context (objs h a) tw y i) res"])
           (auto simp: predict_step_def Let_def retrain_context_def split: sum.splits option.splits)
    qed
  qed
qed


lemma predict_step_ok:
  assumes "predict_step fp mp h y rf tw i st = (None, st1)"
  shows "\<exists>e v. calls st1 = calls st @ [(i, e)] \<and> outcome e = Inr v
           \<and> call_kind h y tw (y_train (self st)) (rf \<le> retrain_idx st) i e
           \<and> retrain_idx st1 = (if rf \<le> retrain_idx st then 1 else retrain_idx st + 1)
           \<and> prediction st1 = loc_set (prediction st) (fst (y ! i)) v"
proof -
  from predict_step_calls[OF assms] obtain e where e:
    "calls st1 = calls st @ [(i, e)]"
    "if rf \<le> retrain_idx st
     then is_refit e \<and> (\<exists>a. y_train (self st) = Some a
            \<and> context_of e = retrain_context (objs h a) tw y i)
     else is_forecast e"
    "case outcome e of
       Inl x \<Rightarrow> (None :: error option) = Some x \<and> prediction st1 = prediction st
     | Inr v \<Rightarrow> (None :: error option) = None
         \<and> retrain_idx st1 = (if rf \<le> retrain_idx st then 1 else retrain_idx st + 1)
         \<and> prediction st1 = loc_set (prediction st) (fst (y ! i)) v"
    by blast
  show ?thesis
  proof (cases "outcome e")
    case (Inl x)
    with e(3) show ?thesis by simp
  next
    case (Inr v)
    with e show ?thesis
      by (intro exI[of _ e] exI[of _ v]) (simp add: call_kind_def)
  qed
qed

lemma predict_step_err:
  assumes "predict_step fp mp h y rf tw i st = (Some x, st1)"
  shows "(calls st1 = calls st \<and> x = AttributeError \<and> self st1 = self st
            \<and> prediction st1 = prediction st
            \<and> (arima_model (self st) = None
                 \<or> (rf \<le> retrain_idx st \<and> y_train (self st) = None)))
         \<or> (\<exists>e. calls st1 = calls st @ [(i, e)] \<and> outcome e = Inl x
               \<and> arima_model (self st) \<noteq> None
               \<and> call_kind h y tw (y_train (self st)) (rf \<le> retrain_idx st) i e
               \<and> prediction st1 = prediction st)"
proof -
  from predict_step_calls[OF assms] show ?thesis
  proof
    assume "calls st1 = calls st \<and> Some x = Some AttributeError \<and> self st1 = self st
        \<and> prediction st1 = prediction st
        \<and> (arima_model (self st) = None \<or> (rf \<le> retrain_idx st \<and> y_train (self st) = None))"
    then show ?thesis by simp
  next
    assume "\<exists>e. calls st1 = calls st @ [(i, e)] \<and> arima_model (self st) \<noteq> None
          \<and> (if rf \<le> retrain_idx st
              then is_refit e \<and> (\<exists>a. y_train (self st) = Some a
                     \<and> context_of e = retrain_context (objs h a) tw y i)
              else is_forecast e)
          \<and> (case outcome e of
                Inl xa \<Rightarrow> Some x = Some xa \<and> prediction st1 = prediction st
              | Inr v \<Rightarrow> Some x = None
                  \<and> retrain_idx st1 = (if rf \<le> retrain_idx st then 1 else retrain_idx st + 1)
                  \<and> prediction st1 = loc_set (prediction st) (fst (y ! i)) v)"
    then obtain e where e: "calls st1 = calls st @ [(i, e)]" "arima_model (self st) \<noteq> None"
      "if rf \<le> retrain_idx st
       then is_refit e \<and> (\<exists>a. y_train (self st) = Some a
              \<and> context_of e = retrain_context (objs h a) tw y i)
       else is_forecast e"
      "case outcome e of
         Inl xa \<Rightarrow> Some x = Some xa \<and> prediction st1 = prediction st
       | Inr v \<Rightarrow> Some x = None
           \<and> retrain_idx st1 = (if rf \<le> retrain_idx st then 1 else retrain_idx st + 1)
           \<and> prediction st1 = loc_set (prediction st) (fst (y ! i)) v"
      by blast
    show ?thesis
    proof (cases "outcome e")
      case (Inr v)
      with e(4) show ?thesis by simp
    next
      case (Inl xa)
      with e have "calls st1 = calls st @ [(i, e)] \<and> outcome e = Inl x
               \<and> arima_model (self st) \<noteq> None
               \<and> call_kind h y tw (y_train (self st)) (rf \<le> retrain_idx st) i e
               \<and> prediction st1 = prediction st"
        by (simp add: call_kind_def)
      then show ?thesis by blast
    qed
  qed
qed


lemma call_kind_ok:
  "call_kind h y tw yt b i e \<Longrightarrow> \<forall>x. outcome e = Inl x \<longrightarrow> err = Some x \<Longrightarrow>
   call_ok h y tw yt err (i, e)"
  by (cases e) (auto simp: call_kind_def call_ok_def split: if_splits)

lemma predict_loop_calls:
  "predict_loop fp mp h y rf tw is st = (err, st') \<Longrightarrow>
     y_train (self st') = y_train (self st)
     \<and> (\<exists>evs rest. calls st' = calls st @ evs \<and> is = map fst evs @ rest
           \<and> (err = None \<longrightarrow> rest = [])
           \<and> (\<forall>c \<in> set evs. call_ok h y tw (y_train (self st)) err c))"
proof (induction "is" arbitrary: st)
  case Nil
  then show ?case by simp
next
  case (Cons i "is")
  obtain e1 st1 where s1: "predict_step fp mp h y rf tw i st = (e1, st1)"
    by (cases "predict_step fp mp h y rf tw i st")
  note yt = predict_step_self[OF s1]
  show ?case
  proof (cases e1)
    case (Some x)
    with Cons.prems s1 have eq: "err = Some x" "st' = st1" by auto
    from predict_step_err[OF s1[unfolded Some]] consider
        (attr) "calls st1 = calls st"
      | (call) e where "calls st1 = calls st @ [(i, e)]" "outcome e = Inl x"
          "call_kind h y tw (y_train (self st)) (rf \<le> retrain_idx st) i e"
      by blast
    then show ?thesis
    proof cases
      case attr
      then show ?thesis using eq yt
        by (intro conjI exI[of _ "[]"] exI[of _ "i # is"]) auto
    next
      case (call e)
      have "call_ok h y tw (y_train (self st)) err (i, e)"
        using call eq by (intro call_kind_ok[OF call(3)]) auto
      then show ?thesis using eq yt call(1)
        by (intro conjI exI[of _ "[(i, e)]"] exI[of _ "is"]) auto
    qed
  next
    case None
    with Cons.prems s1 have rest: "predict_loop fp mp h y rf tw is st1 = (err, st')" by simp
    from Cons.IH[OF rest] obtain evs rest where ih:
      "y_train (self st') = y_train (self st1)" "calls st' = calls st1 @ evs"
      "is = map fst evs @ rest" "err = None \<longrightarrow> rest = []"
      "\<forall>c \<in> set evs. call_ok h y tw (y_train (self st1)) err c" by blast
    from predict_step_ok[OF s1[unfolded None]] obtain e v where e:
      "calls st1 = calls st @ [(i, e)]" "outcome e = Inr v"
      "call_kind h y tw (y_train (self st)) (rf \<le> retrain_idx st) i e" by blast
    have "call_ok h y tw (y_train (self st)) err (i, e)"
      using e by (intro call_kind_ok[OF e(3)]) auto
    then show ?thesis using ih yt e(1)
      by (intro conjI exI[of _ "(i, e) # evs"] exI[of _ rest]) auto
  qed
qed


text \<open>The result of \<open>predict\<close> in terms of the run of its loop.\<close>

lemma predict_run:
  assumes "predict fp mp s h y rf tw = (res, s', cs)"
  obtains err st where
    "predict_loop fp mp h y rf tw [1..<length y]
       \<lparr>self = s, prediction = map (\<lambda>(t, x). (t, None)) y, retrain_idx = 0, calls = []\<rparr>
     = (err, st)"
    and "res = (case err of Some e \<Rightarrow> Inl e | None \<Rightarrow> Inr (prediction st))"
    and "s' = self st" and "cs = calls st"
proof -
  obtain err st where l: "predict_loop fp mp h y rf tw [1..<length y]
       \<lparr>self = s, prediction = map (\<lambda>(t, x). (t, None)) y, retrain_idx = 0, calls = []\<rparr>
     = (err, st)"
    by (cases "predict_loop fp mp h y rf tw [1..<length y]
       \<lparr>self = s, prediction = map (\<lambda>(t, x). (t, None)) y, retrain_idx = 0, calls = []\<rparr>")
  with assms have "res = (case err of Some e \<Rightarrow> Inl e | None \<Rightarrow> Inr (prediction st))"
    "s' = self st" "cs = calls st"
    by (simp_all add: predict_def Let_def)
  with l that show thesis by blast
qed

lemma predict_calls:
  assumes "predict fp mp s h y rf tw = (res, s', cs)"
  shows "y_train s' = y_train s"
    and "\<exists>rest. [1..<length y] = map fst cs @ rest \<and> (\<forall>p. res = Inr p \<longrightarrow> rest = [])"
    and "\<forall>c \<in> set cs. call_ok h y tw (y_train s)
            (case res of Inl e \<Rightarrow> Some e | Inr p \<Rightarrow> None) c"
proof -
  from predict_run[OF assms] obtain err st where run:
    "predict_loop fp mp h y rf tw [1..<length y]
       \<lparr>self = s, prediction = map (\<lambda>(t, x). (t, None)) y, retrain_idx = 0, calls = []\<rparr>
     = (err, st)"
    "res = (case err of Some e \<Rightarrow> Inl e | None \<Rightarrow> Inr (prediction st))"
    "s' = self st" "cs = calls st" by blast
  from predict_loop_calls[OF run(1)] obtain evs rest where l:
    "y_train (self st) = y_train s" "calls st = evs" "[1..<length y] = map fst evs @ rest"
    "err = None \<longrightarrow> rest = []" "\<forall>c \<in> set evs. call_ok h y tw (y_train s) err c"
    by auto
  have e: "(case res of Inl e \<Rightarrow> Some e | Inr p \<Rightarrow> None) = err"
    using run(2) by (cases err) auto
  show "y_train s' = y_train s" using l(1) run(3) by simp
  show "\<exists>rest. [1..<length y] = map fst cs @ rest \<and> (\<forall>p. res = Inr p \<longrightarrow> rest = [])"
    using l(2,3,4) run(2,4) by (intro exI[of _ rest]) (auto split: option.splits)
  show "\<forall>c \<in> set cs. call_ok h y tw (y_train s)
            (case res of Inl e \<Rightarrow> Some e | Inr p \<Rightarrow> None) c"
    using l(2,5) run(4) e by simp
qed

lemma predict_call_index:
  assumes "predict fp mp s h y rf tw = (res, s', cs)" and "(i, e) \<in> set cs"
  shows "1 \<le> i \<and> i < length y"
proof -
  from predict_calls(2)[OF assms(1)] obtain rest where
    "[1..<length y] = map fst cs @ rest" by blast
  then have "set (map fst cs) \<subseteq> set [1..<length y]" by (metis set_append Un_upper1)
  moreover have "i \<in> set (map fst cs)" using assms(2) by force
  ultimately show ?thesis by auto
qed

lemma predict_refit_context:
  assumes "predict fp mp s h y rf tw = (res, s', cs)" and "(i, FitPredict ctx r) \<in> set cs"
  shows "\<exists>a. y_train s = Some a \<and> ctx = retrain_context (objs h a) tw y i"
  using predict_calls(3)[OF assms(1)] assms(2) by (fastforce simp: call_ok_def)

lemma iloc_upto_indices:
  "n \<le> length y \<Longrightarrow> iloc_upto n y = map (\<lambda>j. y ! j) [0..<n]"
proof -
  assume n: "n \<le> length y"
  have "take n (map (\<lambda>j. y ! j) [0..<length y]) = map (\<lambda>j. y ! j) [0..<n]"
    using n by (simp add: take_map)
  then show ?thesis by (simp add: iloc_upto_def map_nth)
qed

lemma iloc_from_last_points: "1 \<le> w \<Longrightarrow> iloc_from (- w) s = last_points (nat w) s"
  by (simp add: iloc_from_def last_points_def nat_diff_distrib')

lemma iloc_from_all: "int (length s) \<le> w \<Longrightarrow> iloc_from (- w) s = drop 0 s"
  by (auto simp: iloc_from_def)

section \<open>predict: what a refit is trained on, and what a failed refit does\<close>

lemmas predict_eval = predict_def predict_step_def Let_def fit_predict_ok_def
  model_predict_ok_def fit_predict_failing_def fitted_def unfitted_def init_forecaster_def
  store1_def oos4_def oos2_def walk3_def iloc_from_def iloc_upto_def loc_set_def

lemma upt_1_4: "[1..<4] = [1, 2, 3]"
  by (simp add: upt_rec)

lemma run_window2:
  "predict fit_predict_ok model_predict_ok fitted store1 oos4 2 (Some 2) =
   (Inr [(10, None), (11, Some 0), (12, Some 0), (13, Some 4)],
    fitted\<lparr>arima_model := Some 1\<rparr>,
    [(1, ModelPredict (Inr (Some 0))), (2, ModelPredict (Inr (Some 0))),
     (3, FitPredict [(1, Some 3), (2, Some 6), (10, Some 7), (11, Some 9)] (Inr (Some 4)))])"
  by (simp add: predict_eval upt_1_4)

lemma run_window7:
  "predict fit_predict_ok model_predict_ok fitted store1 oos4 1 (Some 7) =
   (Inr [(10, None), (11, Some 0), (12, Some 4), (13, Some 5)],
    fitted\<lparr>arima_model := Some 2\<rparr>,
    [(1, ModelPredict (Inr (Some 0))),
     (2, FitPredict [(0, Some 1), (1, Some 3), (2, Some 6), (10, Some 7)] (Inr (Some 4))),
     (3, FitPredict [(0, Some 1), (1, Some 3), (2, Some 6), (10, Some 7), (11, Some 9)]
           (Inr (Some 5)))])"
  by (simp add: predict_eval upt_1_4)

lemma run_failing:
  "predict fit_predict_failing model_predict_ok fitted store1 oos4 2 None =
   (Inl (LibraryError ''no model''), fitted,
    [(1, ModelPredict (Inr (Some 0))), (2, ModelPredict (Inr (Some 0))),
     (3, FitPredict [(0, Some 1), (1, Some 3), (2, Some 6), (10, Some 7), (11, Some 9)]
           (Inl (LibraryError ''no model'')))])"
  by (simp add: predict_eval upt_1_4)

text \<open>
  C1. Every refit made by \<open>predict\<close>, at loop index \<open>i\<close>, is given the retained
  history (all of it when \<open>train_window\<close> is \<open>None\<close>, its last \<open>train_window\<close> points
  when it is a positive number, as the specification requires of a window) followed by
  the out-of-sample entries at the indices \<open>0, ..., i - 2\<close>, and nothing else: the entries
  at \<open>i - 1\<close> and at \<open>i\<close> are not part of it.
\<close>

theorem retrain_context_excludes_lookahead:
  assumes "predict fp mp s h y rf tw = (res, s', cs)"
    and "(i, FitPredict ctx r) \<in> set cs"
    and "\<forall>w. tw = Some w \<longrightarrow> 1 \<le> w"
  shows "\<exists>a. y_train s = Some a \<and> 1 \<le> i \<and> i < length y
           \<and> ctx = retained tw (objs h a) @ map (\<lambda>j. y ! j) [0..<i - 1]"
proof -
  from predict_refit_context[OF assms(1,2)] obtain a where a:
    "y_train s = Some a" "ctx = retrain_context (objs h a) tw y i" by blast
  from predict_call_index[OF assms(1,2)] have i: "1 \<le> i" "i < length y" by auto
  have pre: "iloc_upto (i - 1) y = map (\<lambda>j. y ! j) [0..<i - 1]"
    using i by (intro iloc_upto_indices) simp
  have "(case tw of None \<Rightarrow> objs h a | Some w \<Rightarrow> iloc_from (- w) (objs h a))
      = retained tw (objs h a)"
    using assms(3) by (cases tw) (simp_all add: retained_def iloc_from_last_points)
  with a pre i show ?thesis by (simp add: retrain_context_def)
qed

theorem retrain_context_excludes_lookahead_witness:
  "predict fit_predict_ok model_predict_ok fitted store1 oos4 2 (Some 2) =
     (Inr [(10, None), (11, Some 0), (12, Some 0), (13, Some 4)],
      fitted\<lparr>arima_model := Some 1\<rparr>,
      [(1, ModelPredict (Inr (Some 0))), (2, ModelPredict (Inr (Some 0))),
       (3, FitPredict [(1, Some 3), (2, Some 6), (10, Some 7), (11, Some 9)] (Inr (Some 4)))])
   \<and> y_train fitted = Some 0
   \<and> [(1, Some 3), (2, Some 6), (10, Some 7), (11, Some 9)]
       = retained (Some 2) (objs store1 0) @ map (\<lambda>j. oos4 ! j) [0..<3 - 1]
   \<and> retained (Some 2) (objs store1 0) = [(1, Some 3), (2, Some 6)]
   \<and> map (\<lambda>j. oos4 ! j) [0..<3 - 1] = [(10, Some 7), (11, Some 9)]"
proof -
  have m: "(3, FitPredict [(1, Some 3), (2, Some 6), (10, Some 7), (11, Some 9)] (Inr (Some 4)))
      \<in> set [(1, ModelPredict (Inr (Some 0))), (2, ModelPredict (Inr (Some 0))),
       (3, FitPredict [(1, Some 3), (2, Some 6), (10, Some 7), (11, Some 9)] (Inr (Some 4)))]"
    by simp
  have w: "\<forall>w. Some (2::int) = Some w \<longrightarrow> 1 \<le> w" by simp
  have yt: "y_train fitted = Some 0" by (simp add: fitted_def)
  from retrain_context_excludes_lookahead[OF run_window2 m w] yt
  have "[(1, Some 3), (2, Some 6), (10, Some 7), (11, Some 9)]
       = retained (Some 2) (objs store1 0) @ map (\<lambda>j. oos4 ! j) [0..<3 - 1]" by auto
  moreover have "retained (Some 2) (objs store1 0) = [(1, Some 3), (2, Some 6)]"
    by (simp add: retained_def last_points_def store1_def walk3_def)
  moreover have "map (\<lambda>j. oos4 ! j) [0..<3 - 1] = [(10, Some 7), (11, Some 9)]"
    by (simp add: oos4_def upt_rec)
  ultimately show ?thesis using run_window2 yt by simp
qed

text \<open>
  C6. If a refit raises during \<open>predict\<close>, the call ends with that exception: no series
  is returned, neither the forecasts already made nor anything for the later indices.
\<close>

theorem refit_failure_is_fatal:
  assumes "predict fp mp s h y rf tw = (res, s', cs)"
    and "(i, FitPredict ctx (Inl e)) \<in> set cs"
  shows "res = Inl e"
proof -
  from predict_calls(3)[OF assms(1)] assms(2)
  have "call_ok h y tw (y_train s) (case res of Inl e \<Rightarrow> Some e | Inr p \<Rightarrow> None)
          (i, FitPredict ctx (Inl e))" by blast
  then have "(case res of Inl e \<Rightarrow> Some e | Inr p \<Rightarrow> None) = Some e"
    by (simp add: call_ok_def)
  then show ?thesis by (cases res) auto
qed

theorem refit_failure_is_fatal_witness:
  "snd (snd (predict fit_predict_failing model_predict_ok fitted store1 oos4 2 None)) =
     [(1, ModelPredict (Inr (Some 0))), (2, ModelPredict (Inr (Some 0))),
      (3, FitPredict [(0, Some 1), (1, Some 3), (2, Some 6), (10, Some 7), (11, Some 9)]
            (Inl (LibraryError ''no model'')))]
   \<and> fst (predict fit_predict_failing model_predict_ok fitted store1 oos4 2 None)
       = Inl (LibraryError ''no model'')"
proof -
  have m: "(3, FitPredict [(0, Some 1), (1, Some 3), (2, Some 6), (10, Some 7), (11, Some 9)]
              (Inl (LibraryError ''no model'')))
      \<in> set (snd (snd (predict fit_predict_failing model_predict_ok fitted store1 oos4 2 None)))"
    by (simp add: run_failing)
  obtain res s' cs where r:
    "predict fit_predict_failing model_predict_ok fitted store1 oos4 2 None = (res, s', cs)"
    by (cases "predict fit_predict_failing model_predict_ok fitted store1 oos4 2 None")
  from refit_failure_is_fatal[OF r] m r have "res = Inl (LibraryError ''no model'')" by simp
  with r show ?thesis by (simp add: run_failing)
qed

text \<open>
  C10. With a \<open>train_window\<close> larger than the stored history, every refit of \<open>predict\<close>
  is given the whole history followed by the out-of-sample entries at the indices
  \<open>0, ..., i - 2\<close>: the slice clamps, nothing is padded and nothing is raised for it.
\<close>

theorem oversized_window_uses_whole_history:
  assumes "predict fp mp s h y rf (Some w) = (res, s', cs)"
    and "(i, FitPredict ctx r) \<in> set cs"
    and "y_train s = Some a"
    and "int (length (objs h a)) < w"
  shows "ctx = objs h a @ map (\<lambda>j. y ! j) [0..<i - 1]"
proof -
  from predict_refit_context[OF assms(1,2)] assms(3)
  have c: "ctx = retrain_context (objs h a) (Some w) y i" by auto
  from predict_call_index[OF assms(1,2)] have i: "1 \<le> i" "i < length y" by auto
  have pre: "iloc_upto (i - 1) y = map (\<lambda>j. y ! j) [0..<i - 1]"
    using i by (intro iloc_upto_indices) simp
  have "iloc_from (- w) (objs h a) = objs h a"
    using assms(4) iloc_from_all[of "objs h a" w] by simp
  with c pre show ?thesis by (simp add: retrain_context_def)
qed

theorem oversized_window_uses_whole_history_witness:
  "int (length (objs store1 0)) < 7
   \<and> snd (snd (predict fit_predict_ok model_predict_ok fitted store1 oos4 1 (Some 7))) =
       [(1, ModelPredict (Inr (Some 0))),
        (2, FitPredict [(0, Some 1), (1, Some 3), (2, Some 6), (10, Some 7)] (Inr (Some 4))),
        (3, FitPredict [(0, Some 1), (1, Some 3), (2, Some 6), (10, Some 7), (11, Some 9)]
              (Inr (Some 5)))]
   \<and> [(0, Some 1), (1, Some 3), (2, Some 6), (10, Some 7), (11, Some 9)]
       = objs store1 0 @ map (\<lambda>j. oos4 ! j) [0..<3 - 1]"
proof -
  have m: "(3, FitPredict [(0, Some 1), (1, Some 3), (2, Some 6), (10, Some 7), (11, Some 9)]
              (Inr (Some 5)))
      \<in> set [(1, ModelPredict (Inr (Some 0))),
        (2, FitPredict [(0, Some 1), (1, Some 3), (2, Some 6), (10, Some 7)] (Inr (Some 4))),
        (3, FitPredict [(0, Some 1), (1, Some 3), (2, Some 6), (10, Some 7), (11, Some 9)]
              (Inr (Some 5)))]" by simp
  have yt: "y_train fitted = Some 0" by (simp add: fitted_def)
  have len: "int (length (objs store1 0)) < 7" by (simp add: store1_def walk3_def)
  from oversized_window_uses_whole_history[OF run_window7 m yt len] len run_window7
  show ?thesis by simp
qed

section \<open>The stored training history\<close>

text \<open>
  C8. When the fit gets as far as its second statement (the trend order was found), the
  forecaster's \<open>y_train\<close> is a new object with the content of the caller's series: it is
  not the caller's object, and a later assignment into the caller's series leaves it as
  it was. \<open>predict\<close> leaves \<open>y_train\<close> referring to the same object, has no way to write
  to the store, and gives every refit a series built from the history by slicing and
  appending.
\<close>

theorem history_is_copied_and_kept:
  "(\<forall>d ev. get_trend_order sd (objs h r) = Some (Inr d, ev) \<and> r < next_ref h \<longrightarrow>
      (\<exists>res s1 h1 cs c.
          get_best_arima_model sd aa s h r verbose = Some (res, s1, h1, cs)
          \<and> y_train s1 = Some c \<and> c \<noteq> r \<and> objs h1 c = objs h r
          \<and> (\<forall>zs. objs (h1\<lparr>objs := (objs h1)(r := zs)\<rparr>) c = objs h r)))
   \<and> (\<forall>res s' cs. predict fp mp s2 h2 y rf tw = (res, s', cs) \<longrightarrow>
        y_train s' = y_train s2
        \<and> (\<forall>i ctx x. (i, FitPredict ctx x) \<in> set cs \<longrightarrow>
              (\<exists>a. y_train s2 = Some a \<and> ctx = retrain_context (objs h2 a) tw y i)))"
proof (intro conjI)
  show "\<forall>d ev. get_trend_order sd (objs h r) = Some (Inr d, ev) \<and> r < next_ref h \<longrightarrow>
      (\<exists>res s1 h1 cs c.
          get_best_arima_model sd aa s h r verbose = Some (res, s1, h1, cs)
          \<and> y_train s1 = Some c \<and> c \<noteq> r \<and> objs h1 c = objs h r
          \<and> (\<forall>zs. objs (h1\<lparr>objs := (objs h1)(r := zs)\<rparr>) c = objs h r))"
  proof (intro allI impI)
    fix d ev assume a: "get_trend_order sd (objs h r) = Some (Inr d, ev) \<and> r < next_ref h"
    then have run: "get_trend_order sd (objs h r) = Some (Inr d, ev)" and r: "r < next_ref h"
      by simp_all
    from fit_on_order[OF run, of aa s verbose] obtain res s1 cs where f:
      "get_best_arima_model sd aa s h r verbose = Some (res, s1, snd (copy_series h r), cs)"
      "y_train s1 = Some (next_ref h)" by blast
    have "next_ref h \<noteq> r" using r by simp
    moreover have "objs (snd (copy_series h r)) (next_ref h) = objs h r"
      by (simp add: copy_series_def)
    moreover have "\<forall>zs. objs ((snd (copy_series h r))
        \<lparr>objs := (objs (snd (copy_series h r)))(r := zs)\<rparr>) (next_ref h) = objs h r"
      using r by (simp add: copy_series_def)
    ultimately show "\<exists>res s1 h1 cs c.
          get_best_arima_model sd aa s h r verbose = Some (res, s1, h1, cs)
          \<and> y_train s1 = Some c \<and> c \<noteq> r \<and> objs h1 c = objs h r
          \<and> (\<forall>zs. objs (h1\<lparr>objs := (objs h1)(r := zs)\<rparr>) c = objs h r)"
      using f by blast
  qed
next
  show "\<forall>res s' cs. predict fp mp s2 h2 y rf tw = (res, s', cs) \<longrightarrow>
        y_train s' = y_train s2
        \<and> (\<forall>i ctx x. (i, FitPredict ctx x) \<in> set cs \<longrightarrow>
              (\<exists>a. y_train s2 = Some a \<and> ctx = retrain_context (objs h2 a) tw y i))"
  proof (intro allI impI conjI)
    fix res s' cs assume run: "predict fp mp s2 h2 y rf tw = (res, s', cs)"
    show "y_train s' = y_train s2" by (rule predict_calls(1)[OF run])
    fix i ctx x assume "(i, FitPredict ctx x) \<in> set cs"
    then show "\<exists>a. y_train s2 = Some a \<and> ctx = retrain_context (objs h2 a) tw y i"
      by (rule predict_refit_context[OF run])
  qed
qed

theorem history_is_copied_and_kept_witness:
  "get_trend_order adf_by_length (objs store1 0)
     = Some (Inr 1, [ShouldDiff walk3 (Inr True), DiffDropna walk3,
                     ShouldDiff [(1, Some 2), (2, Some 3)] (Inr False)])
   \<and> (0::nat) < next_ref store1
   \<and> (\<exists>res s1 h1 cs c.
         get_best_arima_model adf_by_length auto_arima_ok unfitted store1 0 False
           = Some (res, s1, h1, cs)
         \<and> y_train s1 = Some c \<and> c \<noteq> 0 \<and> objs h1 c = walk3
         \<and> objs (h1\<lparr>objs := (objs h1)(0 := [])\<rparr>) c = walk3)
   \<and> y_train (fst (snd (predict fit_predict_ok model_predict_ok fitted store1 oos4 2 (Some 2))))
       = y_train fitted"
proof -
  have o: "objs store1 0 = walk3" by (simp add: store1_def)
  have run: "get_trend_order adf_by_length (objs store1 0)
     = Some (Inr 1, [ShouldDiff walk3 (Inr True), DiffDropna walk3,
                     ShouldDiff [(1, Some 2), (2, Some 3)] (Inr False)])"
    using walk3_run_by_length by (simp add: o)
  have n: "(0::nat) < next_ref store1" by (simp add: store1_def)
  note t = history_is_copied_and_kept[of adf_by_length store1 0 auto_arima_ok unfitted False
      fit_predict_ok model_predict_ok fitted store1 oos4 2 "Some 2"]
  from t run n have "\<exists>res s1 h1 cs c.
         get_best_arima_model adf_by_length auto_arima_ok unfitted store1 0 False
           = Some (res, s1, h1, cs)
         \<and> y_train s1 = Some c \<and> c \<noteq> 0 \<and> objs h1 c = objs store1 0
         \<and> (\<forall>zs. objs (h1\<lparr>objs := (objs h1)(0 := zs)\<rparr>) c = objs store1 0)"
    by blast
  then have fit: "\<exists>res s1 h1 cs c.
         get_best_arima_model adf_by_length auto_arima_ok unfitted store1 0 False
           = Some (res, s1, h1, cs)
         \<and> y_train s1 = Some c \<and> c \<noteq> 0 \<and> objs h1 c = walk3
         \<and> objs (h1\<lparr>objs := (objs h1)(0 := [])\<rparr>) c = walk3"
    unfolding o by blast
  from t run_window2
  have "y_train (fst (snd (predict fit_predict_ok model_predict_ok fitted store1 oos4 2 (Some 2))))
       = y_train fitted" by simp
  with run n fit show ?thesis by blast
qed

section \<open>predict: the retrain schedule\<close>











section \<open>predict: the series it returns\<close>

lemma loc_set_labels: "map fst (loc_set p l v) = map fst p"
  by (induction p) (auto simp: loc_set_def)

lemma loc_set_other: "j < length p \<Longrightarrow> fst (p ! j) \<noteq> l \<Longrightarrow> loc_set p l v ! j = p ! j"
  by (cases "p ! j") (simp add: loc_set_def)

lemma loc_set_same: "j < length p \<Longrightarrow> fst (p ! j) = l \<Longrightarrow> loc_set p l v ! j = (l, v)"
  by (cases "p ! j") (simp add: loc_set_def)

lemma labels_nth:
  "map fst p = map fst y \<Longrightarrow> j < length y \<Longrightarrow> j < length p \<and> fst (p ! j) = fst (y ! j)"
  by (metis length_map nth_map)

lemma predict_step_prediction:
  assumes "predict_step fp mp h y rf tw i st = (err, st1)"
  shows "prediction st1 = prediction st
       \<or> (\<exists>e v. err = None \<and> calls st1 = calls st @ [(i, e)] \<and> outcome e = Inr v
              \<and> prediction st1 = loc_set (prediction st) (fst (y ! i)) v)"
proof (cases err)
  case None
  from predict_step_ok[OF assms[unfolded None]] None show ?thesis by blast
next
  case (Some x)
  from predict_step_err[OF assms[unfolded Some]] show ?thesis by blast
qed

lemma predict_loop_labels:
  "predict_loop fp mp h y rf tw is st = (err, st') \<Longrightarrow>
     map fst (prediction st') = map fst (prediction st)"
proof (induction "is" arbitrary: st)
  case Nil
  then show ?case by simp
next
  case (Cons i "is")
  obtain e1 st1 where s1: "predict_step fp mp h y rf tw i st = (e1, st1)"
    by (cases "predict_step fp mp h y rf tw i st")
  note l = predict_step_labels[OF s1]
  show ?case
  proof (cases e1)
    case None
    with Cons.prems s1 have "predict_loop fp mp h y rf tw is st1 = (err, st')" by simp
    from Cons.IH[OF this] l show ?thesis by simp
  next
    case (Some x)
    with Cons.prems s1 l show ?thesis by simp
  qed
qed

lemma predict_loop_calls_mono:
  "predict_loop fp mp h y rf tw is st = (err, st') \<Longrightarrow> set (calls st) \<subseteq> set (calls st')"
  using predict_loop_calls[of fp mp h y rf tw "is" st err st'] by auto

lemma predict_loop_untouched:
  assumes "predict_loop fp mp h y rf tw is st = (err, st')"
    and "map fst (prediction st) = map fst y" and "j < length y"
    and "\<forall>i \<in> set is. fst (y ! i) \<noteq> fst (y ! j)"
  shows "prediction st' ! j = prediction st ! j"
  using assms
proof (induction "is" arbitrary: st)
  case Nil
  then show ?case by simp
next
  case (Cons i "is")
  obtain e1 st1 where s1: "predict_step fp mp h y rf tw i st = (e1, st1)"
    by (cases "predict_step fp mp h y rf tw i st")
  have l1: "map fst (prediction st1) = map fst y"
    using predict_step_labels[OF s1] Cons.prems(2) by simp
  from labels_nth[OF Cons.prems(2,3)] have j: "j < length (prediction st)"
    "fst (prediction st ! j) = fst (y ! j)" by simp_all
  have keep: "prediction st1 ! j = prediction st ! j"
    using predict_step_prediction[OF s1] j Cons.prems(4) by (auto simp: loc_set_other)
  show ?case
  proof (cases e1)
    case None
    with Cons.prems(1) s1 have "predict_loop fp mp h y rf tw is st1 = (err, st')" by simp
    from Cons.IH[OF this l1 Cons.prems(3)] Cons.prems(4) keep show ?thesis by simp
  next
    case (Some x)
    with Cons.prems(1) s1 keep show ?thesis by simp
  qed
qed

lemma predict_loop_forecast:
  assumes "predict_loop fp mp h y rf tw is st = (None, st')"
    and "map fst (prediction st) = map fst y" and "distinct (map fst y)"
    and "distinct is" and "\<forall>i \<in> set is. i < length y" and "j \<in> set is"
  shows "\<exists>e. (j, e) \<in> set (calls st') \<and> outcome e = Inr (snd (prediction st' ! j))"
  using assms
proof (induction "is" arbitrary: st)
  case Nil
  then show ?case by simp
next
  case (Cons i "is")
  obtain e1 st1 where s1: "predict_step fp mp h y rf tw i st = (e1, st1)"
    by (cases "predict_step fp mp h y rf tw i st")
  with Cons.prems(1) have e1: "e1 = None" by (cases e1) auto
  with Cons.prems(1) s1 have rest: "predict_loop fp mp h y rf tw is st1 = (None, st')"
    by simp
  have l1: "map fst (prediction st1) = map fst y"
    using predict_step_labels[OF s1] Cons.prems(2) by simp
  show ?case
  proof (cases "j = i")
    case False
    with Cons.prems have "j \<in> set is" "distinct is" "\<forall>i \<in> set is. i < length y" by auto
    from Cons.IH[OF rest l1 Cons.prems(3) this(2,3,1)] show ?thesis .
  next
    case True
    from Cons.prems(5) have i: "i < length y" by simp
    from labels_nth[OF Cons.prems(2) i] have pi: "i < length (prediction st)"
      "fst (prediction st ! i) = fst (y ! i)" by simp_all
    from predict_step_ok[OF s1[unfolded e1]] obtain e v where e:
      "calls st1 = calls st @ [(i, e)]" "outcome e = Inr v"
      "prediction st1 = loc_set (prediction st) (fst (y ! i)) v" by blast
    have set1: "prediction st1 ! i = (fst (y ! i), v)"
      using e(3) pi by (simp add: loc_set_same)
    have other: "\<forall>i' \<in> set is. fst (y ! i') \<noteq> fst (y ! i)"
    proof
      fix i' assume a: "i' \<in> set is"
      with Cons.prems(4,5) have "i' \<noteq> i" "i' < length y" by auto
      with i Cons.prems(3) show "fst (y ! i') \<noteq> fst (y ! i)"
        by (metis length_map nth_map nth_eq_iff_index_eq)
    qed
    from predict_loop_untouched[OF rest l1 i other] set1
    have "snd (prediction st' ! i) = v" by simp
    moreover have "(i, e) \<in> set (calls st')"
      using predict_loop_calls_mono[OF rest] e(1) by auto
    ultimately show ?thesis using e(2) True by blast
  qed
qed

text \<open>
  C3, as the specification states it, fails: for an out-of-sample series of four points
  \<open>predict\<close> returns four entries, not three, over all four timestamps; the first
  timestamp has an entry, which is NaN.
\<close>

theorem prediction_length_counterexample:
  "fst (predict fit_predict_ok model_predict_ok fitted store1 oos4 2 (Some 2))
     = Inr [(10, None), (11, Some 0), (12, Some 0), (13, Some 4)]
   \<and> length [(10::nat, None), (11, Some (0::int)), (12, Some 0), (13, Some 4)] = 4
   \<and> length oos4 - 1 = 3
   \<and> map fst [(10::nat, None), (11, Some (0::int)), (12, Some 0), (13, Some 4)]
       = [10, 11, 12, 13]
   \<and> map fst (drop 1 oos4) = [11, 12, 13]"
  unfolding run_window2 by (simp add: oos4_def)

text \<open>
  C3, amended. When \<open>predict\<close> returns a series, the series has the length and, in
  order, exactly the timestamps of the whole out-of-sample series; and when these
  timestamps are distinct, its first entry is NaN (no forecast is made for the first
  timestamp, but the entry is there) and its entry at every index from 1 on holds the
  forecast that the model call of that loop index returned.
\<close>

theorem prediction_shape:
  assumes "predict fp mp s h y rf tw = (Inr p, s', cs)"
  shows "map fst p = map fst y \<and> length p = length y
       \<and> (distinct (map fst y) \<longrightarrow>
            (0 < length y \<longrightarrow> p ! 0 = (fst (y ! 0), None))
            \<and> (\<forall>i. 1 \<le> i \<and> i < length y \<longrightarrow>
                  (\<exists>e. (i, e) \<in> set cs \<and> outcome e = Inr (snd (p ! i)))))"
proof -
  let ?st0 = "\<lparr>self = s, prediction = map (\<lambda>(t, x). (t, None)) y, retrain_idx = 0,
                calls = ([] :: (nat \<times> ('a, 'b) event) list)\<rparr>"
  from predict_run[OF assms] obtain err st where run:
    "predict_loop fp mp h y rf tw [1..<length y] ?st0 = (err, st)"
    "Inr p = (case err of Some e \<Rightarrow> Inl e | None \<Rightarrow> Inr (prediction st))"
    "cs = calls st" by blast
  from run(2) have err: "err = None" and p: "p = prediction st"
    by (cases err; simp)+
  have l0: "map fst (prediction ?st0) = map fst y"
    by (simp add: case_prod_unfold o_def)
  from predict_loop_labels[OF run(1)] l0 p have labels: "map fst p = map fst y" by simp
  then have len: "length p = length y" by (metis length_map)
  have d: "distinct (map fst y) \<longrightarrow>
            (0 < length y \<longrightarrow> p ! 0 = (fst (y ! 0), None))
            \<and> (\<forall>i. 1 \<le> i \<and> i < length y \<longrightarrow>
                  (\<exists>e. (i, e) \<in> set cs \<and> outcome e = Inr (snd (p ! i))))"
  proof (intro impI conjI allI)
    assume dist: "distinct (map fst y)" and y: "0 < length y"
    have "\<forall>i \<in> set [1..<length y]. fst (y ! i) \<noteq> fst (y ! 0)"
    proof
      fix i assume "i \<in> set [1..<length y]"
      then have "i \<noteq> 0" "i < length y" by auto
      with y dist show "fst (y ! i) \<noteq> fst (y ! 0)"
        by (metis length_map nth_map nth_eq_iff_index_eq)
    qed
    from predict_loop_untouched[OF run(1) l0 y this] p
    have "p ! 0 = map (\<lambda>(t, x). (t, None)) y ! 0" by simp
    then show "p ! 0 = (fst (y ! 0), None)" using y by (simp add: case_prod_unfold)
  next
    fix i assume dist: "distinct (map fst y)" and i: "1 \<le> i \<and> i < length y"
    have "\<exists>e. (i, e) \<in> set (calls st) \<and> outcome e = Inr (snd (prediction st ! i))"
      by (rule predict_loop_forecast[OF run(1)[unfolded err] l0 dist]) (use i in auto)
    then show "\<exists>e. (i, e) \<in> set cs \<and> outcome e = Inr (snd (p ! i))"
      using run(3) p by simp
  qed
  from labels len d show ?thesis by blast
qed

theorem prediction_shape_witness:
  "predict fit_predict_ok model_predict_ok fitted store1 oos4 2 (Some 2) =
     (Inr [(10, None), (11, Some 0), (12, Some 0), (13, Some 4)],
      fitted\<lparr>arima_model := Some 1\<rparr>,
      [(1, ModelPredict (Inr (Some 0))), (2, ModelPredict (Inr (Some 0))),
       (3, FitPredict [(1, Some 3), (2, Some 6), (10, Some 7), (11, Some 9)] (Inr (Some 4)))])
   \<and> distinct (map fst oos4)
   \<and> map fst [(10::nat, None), (11, Some (0::int)), (12, Some 0), (13, Some 4)] = map fst oos4
   \<and> [(10::nat, None), (11, Some (0::int)), (12, Some 0), (13, Some 4)] ! 0
       = (fst (oos4 ! 0), None)"
proof -
  have d: "distinct (map fst oos4)" by (simp add: oos4_def)
  have y: "0 < length oos4" by (simp add: oos4_def)
  from prediction_shape[OF run_window2] d y run_window2 show ?thesis by blast
qed

section \<open>predict: what it does with inputs the specification excludes\<close>

lemma predict_short:
  assumes "length y < 2"
  shows "predict fp mp s h y rf tw = (Inr (map (\<lambda>(t, x). (t, None)) y), s, [])"
proof -
  from assms have "length y \<le> Suc 0" by simp
  then show ?thesis by (simp add: predict_def)
qed

lemma predict_unfitted:
  assumes "2 \<le> length y" and "arima_model s = None"
  shows "predict fp mp s h y rf tw = (Inl AttributeError, s, [])"
proof -
  have up: "[Suc 0..<length y] = Suc 0 # [Suc (Suc 0)..<length y]"
    using assms(1) by (simp add: upt_conv_Cons)
  show ?thesis
    by (simp add: predict_def up predict_step_def assms(2) Let_def)
qed

lemma predict_step_total:
  assumes "\<forall>m c. \<exists>v m'. fp m c = (Inr v, m')" and "\<forall>m. \<exists>v m'. mp m = (Inr v, m')"
    and "arima_model (self st) \<noteq> None" and "y_train (self st) \<noteq> None"
  shows "\<exists>st1. predict_step fp mp h y rf tw i st = (None, st1)
           \<and> arima_model (self st1) \<noteq> None \<and> y_train (self st1) \<noteq> None"
proof -
  from assms(3,4) obtain m a where m: "arima_model (self st) = Some m"
    "y_train (self st) = Some a" by auto
  show ?thesis
  proof (cases "rf \<le> retrain_idx st")
    case True
    from assms(1) obtain v m' where "fp m (retrain_context (objs h a) tw y i) = (Inr v, m')"
      by blast
    then show ?thesis using True m
      by (simp add: predict_step_def Let_def retrain_context_def split: option.splits)
  next
    case False
    from assms(2) obtain v m' where "mp m = (Inr v, m')" by blast
    then show ?thesis using False m by (simp add: predict_step_def Let_def)
  qed
qed

lemma predict_loop_total:
  assumes "\<forall>m c. \<exists>v m'. fp m c = (Inr v, m')" and "\<forall>m. \<exists>v m'. mp m = (Inr v, m')"
    and "arima_model (self st) \<noteq> None" and "y_train (self st) \<noteq> None"
  shows "\<exists>st'. predict_loop fp mp h y rf tw is st = (None, st')"
  using assms(3,4)
proof (induction "is" arbitrary: st)
  case Nil
  show ?case by simp
next
  case (Cons i "is")
  from predict_step_total[OF assms(1,2) Cons.prems, of h y rf tw i] obtain st1 where s:
    "predict_step fp mp h y rf tw i st = (None, st1)"
    "arima_model (self st1) \<noteq> None" "y_train (self st1) \<noteq> None" by blast
  from Cons.IH[OF s(2,3)] s(1) show ?case by simp
qed

lemma run_unvalidated:
  "predict fit_predict_ok model_predict_ok unfitted store1 [] 0 (Some (- 1))
     = (Inr [], unfitted, [])"
  by (simp add: predict_def)

lemma upt_1_3: "[1..<3] = [1, 2]"
  by (simp add: upt_rec)

lemma run_backwards:
  "predict fit_predict_ok model_predict_ok fitted store1 oos_backwards 0 (Some (- 1))
     = (Inr [(13, None), (12, Some 2), (11, Some 3)], fitted\<lparr>arima_model := Some 2\<rparr>,
        [(1, FitPredict [(1, Some 3), (2, Some 6)] (Inr (Some 2))),
         (2, FitPredict [(1, Some 3), (2, Some 6), (13, Some 10)] (Inr (Some 3)))])"
  by (simp add: predict_eval oos_backwards_def upt_1_3)

text \<open>
  C5, as the specification states it, fails: called before any fit, on an empty series,
  with \<open>retrain_freq = 0\<close> and \<open>train_window = -1\<close>, \<open>predict\<close> returns an (empty)
  series; and on a fitted forecaster, with the same frequency and window and a series whose
  timestamps go backwards, it returns a series of forecasts. Neither call fails.
\<close>

theorem predict_validates_nothing_counterexample:
  "predict fit_predict_ok model_predict_ok unfitted store1 [] 0 (Some (- 1))
     = (Inr [], unfitted, [])
   \<and> predict fit_predict_ok model_predict_ok fitted store1 oos_backwards 0 (Some (- 1))
     = (Inr [(13, None), (12, Some 2), (11, Some 3)], fitted\<lparr>arima_model := Some 2\<rparr>,
        [(1, FitPredict [(1, Some 3), (2, Some 6)] (Inr (Some 2))),
         (2, FitPredict [(1, Some 3), (2, Some 6), (13, Some 10)] (Inr (Some 3)))])"
  using run_unvalidated run_backwards by simp

text \<open>
  C5, amended. \<open>predict\<close> checks none of its inputs. On an out-of-sample series of
  fewer than 2 points it returns the series of NaN over that index, calls nothing and
  leaves the forecaster as it was, whatever the other arguments and whether or not a fit
  was made. On 2 points or more and a forecaster with no model it ends in its first pass
  with the \<open>AttributeError\<close> of the call on \<open>None\<close>, having called nothing and changed
  nothing. On a fitted forecaster whose model calls all succeed it returns a series for
  every \<open>retrain_freq\<close>, every \<open>train_window\<close> and every series.
\<close>

theorem predict_validates_nothing:
  "(length y < 2 \<longrightarrow>
      predict fp mp s h y rf tw = (Inr (map (\<lambda>(t, x). (t, None)) y), s, []))
   \<and> (2 \<le> length y \<and> arima_model s = None \<longrightarrow>
      predict fp mp s h y rf tw = (Inl AttributeError, s, []))
   \<and> ((\<forall>m c. \<exists>v m'. fp m c = (Inr v, m')) \<and> (\<forall>m. \<exists>v m'. mp m = (Inr v, m'))
        \<and> arima_model s \<noteq> None \<and> y_train s \<noteq> None \<longrightarrow>
      (\<exists>p s' cs. predict fp mp s h y rf tw = (Inr p, s', cs)))"
proof (intro conjI impI)
  assume "length y < 2"
  then show "predict fp mp s h y rf tw = (Inr (map (\<lambda>(t, x). (t, None)) y), s, [])"
    by (rule predict_short)
next
  assume "2 \<le> length y \<and> arima_model s = None"
  then show "predict fp mp s h y rf tw = (Inl AttributeError, s, [])"
    by (intro predict_unfitted) simp_all
next
  assume a: "(\<forall>m c. \<exists>v m'. fp m c = (Inr v, m')) \<and> (\<forall>m. \<exists>v m'. mp m = (Inr v, m'))
        \<and> arima_model s \<noteq> None \<and> y_train s \<noteq> None"
  have "\<exists>st'. predict_loop fp mp h y rf tw [1..<length y]
          \<lparr>self = s, prediction = map (\<lambda>(t, x). (t, None)) y, retrain_idx = 0, calls = []\<rparr>
        = (None, st')"
    by (rule predict_loop_total) (use a in simp_all)
  then obtain st' where "predict_loop fp mp h y rf tw [1..<length y]
          \<lparr>self = s, prediction = map (\<lambda>(t, x). (t, None)) y, retrain_idx = 0, calls = []\<rparr>
        = (None, st')" by blast
  then show "\<exists>p s' cs. predict fp mp s h y rf tw = (Inr p, s', cs)"
    by (simp add: predict_def)
qed

theorem predict_validates_nothing_witness:
  "length ([] :: (nat, int) series) < 2
   \<and> predict fit_predict_ok model_predict_ok unfitted store1 [] 0 (Some (- 1))
       = (Inr [], unfitted, [])
   \<and> 2 \<le> length oos4 \<and> arima_model unfitted = None
   \<and> predict fit_predict_ok model_predict_ok unfitted store1 oos4 1 None
       = (Inl AttributeError, unfitted, [])
   \<and> arima_model fitted \<noteq> None \<and> y_train fitted \<noteq> None
   \<and> (\<exists>p s' cs. predict fit_predict_ok model_predict_ok fitted store1 oos_backwards 0
                    (Some (- 1)) = (Inr p, s', cs))"
proof -
  have a: "length ([] :: (nat, int) series) < 2" by simp
  have b: "2 \<le> length oos4 \<and> arima_model unfitted = None"
    by (simp add: oos4_def unfitted_def init_forecaster_def)
  have c: "(\<forall>m c. \<exists>v m'. fit_predict_ok m c = (Inr v, m'))
      \<and> (\<forall>m. \<exists>v m'. model_predict_ok m = (Inr v, m'))
      \<and> arima_model fitted \<noteq> None \<and> y_train fitted \<noteq> None"
    by (simp add: fit_predict_ok_def model_predict_ok_def fitted_def)
  from predict_validates_nothing[of "[]" fit_predict_ok model_predict_ok unfitted store1 0
      "Some (- 1)"] a
  have 1: "predict fit_predict_ok model_predict_ok unfitted store1 [] 0 (Some (- 1))
       = (Inr [], unfitted, [])" by simp
  from predict_validates_nothing[of oos4 fit_predict_ok model_predict_ok unfitted store1 1
      None] b
  have 2: "predict fit_predict_ok model_predict_ok unfitted store1 oos4 1 None
       = (Inl AttributeError, unfitted, [])" by simp
  from predict_validates_nothing[of oos_backwards fit_predict_ok model_predict_ok fitted
      store1 0 "Some (- 1)"] c
  have 3: "\<exists>p s' cs. predict fit_predict_ok model_predict_ok fitted store1 oos_backwards 0
                    (Some (- 1)) = (Inr p, s', cs)" by simp
  from a b c 1 2 3 show ?thesis by simp
qed

end
